theory Spec2Isabelle
  imports Main "HOL-Library.Sublist"
begin

section \<open>Data model\<close>

text \<open>
  The repository holds two near-identical Deno scripts, \<^verbatim>\<open>src/main.ts\<close> and
  \<^verbatim>\<open>src/unnamed/part_000\<close>. Both define \<^verbatim>\<open>createCSV\<close> and
  \<^verbatim>\<open>getInteractingAddresses\<close>; they differ in what the \<^verbatim>\<open>catch\<close> block of the
  transaction fetch does (\<^verbatim>\<open>return\<close> in main.ts, a 10 s sleep and \<^verbatim>\<open>continue\<close> in
  part_000), in the delay at the end of the loop body (5000 ms against 100 ms) and in the
  progress logging. Definitions that embed main.ts carry the suffix \<open>_main\<close>, those
  that embed part_000 the suffix \<open>_part000\<close>; text that is the same in both files is
  embedded once.
\<close>

text \<open>A thrown JavaScript value (an \<^verbatim>\<open>Error\<close> with its message).\<close>

datatype js_error = Error string

text \<open>
  \<^verbatim>\<open>ParsedMessageAccount\<close>: the code reads \<^verbatim>\<open>account.signer\<close> and
  \<^verbatim>\<open>account.pubkey.toString()\<close>; \<open>pubkey\<close> is that base58 string.
\<close>

record ParsedMessageAccount =
  pubkey :: string
  signer :: bool

text \<open>
  \<^verbatim>\<open>ParsedTransactionWithMeta\<close>: the code reads only
  \<^verbatim>\<open>transaction.transaction.message.accountKeys\<close>, which it tests for falsiness
  (\<open>None\<close> is \<^verbatim>\<open>undefined\<close>/\<^verbatim>\<open>null\<close>; an empty array is truthy in JavaScript).
\<close>

record ParsedTransactionWithMeta =
  accountKeys :: "ParsedMessageAccount list option"

text \<open>
  The values of \<^verbatim>\<open>blockTime?: number | null\<close>: the field may be missing
  (\<^verbatim>\<open>undefined\<close>), \<^verbatim>\<open>null\<close> or a number; \<^verbatim>\<open>!==\<close> tells the three apart.
\<close>

datatype js_time = Undefined | Null | Number int

text \<open>\<^verbatim>\<open>ConfirmedSignatureInfo\<close>, one record of a signature listing.\<close>

record ConfirmedSignatureInfo =
  signature :: string
  slot :: nat
  blockTime :: js_time

text \<open>
  \<^verbatim>\<open>SignaturesForAddressOptions\<close>: \<open>before\<close> and \<open>until\<close> are the pagination
  cursors of the RPC method, \<open>limit\<close> the page size.
\<close>

record SignaturesForAddressOptions =
  before :: "string option"
  until :: "string option"
  limit :: "nat option"

text \<open>The console lines the two scripts print, with the values they interpolate.\<close>

datatype console =
    FetchingSignatures string
  | FetchingTransaction string
  | NewBlockTime js_time
  | NewBlockSlot nat
  | ErrorFetchingTransaction js_error
  | SleepingFor10Seconds
  | Continuing
  | TransactionNotFound
  | MessageNotFound
  | FoundNewUniqueAddress string nat
  | CsvFileCreated string

text \<open>
  The effects of a run, in the order they happen: each awaited RPC call with its
  arguments and the value it resolved to (\<open>Inl\<close>: the promise rejected), each
  \<^verbatim>\<open>sleep(ms)\<close>, each console line, each \<^verbatim>\<open>Deno.writeTextFile(path, content)\<close>.
\<close>

datatype event =
    GetSignaturesForAddress string SignaturesForAddressOptions
      "js_error + ConfirmedSignatureInfo list"
  | GetParsedTransaction string nat "js_error + ParsedTransactionWithMeta option"
  | Sleep nat
  | Console console
  | WriteTextFile string string

text \<open>
  The library \<^verbatim>\<open>@solana/web3.js\<close> is not part of the repository, so it is a
  parameter. This record is what the code uses of it once a connection exists:
  \<open>PublicKey\<close> is the constructor followed by \<^verbatim>\<open>toString()\<close> (it throws on a string
  that is no valid key), and the two RPC methods of the \<^verbatim>\<open>Connection\<close> answer from a
  ledger state \<open>'l\<close> that they may change, so that the same request can be answered
  differently at different times. The \<open>nat\<close> argument of \<open>getParsedTransaction\<close> is
  \<^verbatim>\<open>maxSupportedTransactionVersion\<close>. The constructor of the connection, which may
  throw as well, is a parameter of \<open>getInteractingAddresses\<close> below.
\<close>

record 'l web3 =
  PublicKey :: "string \<Rightarrow> js_error + string"
  getSignaturesForAddress ::
    "'l \<Rightarrow> string \<Rightarrow> SignaturesForAddressOptions \<Rightarrow> (js_error + ConfirmedSignatureInfo list) \<times> 'l"
  getParsedTransaction ::
    "'l \<Rightarrow> string \<Rightarrow> nat \<Rightarrow> (js_error + ParsedTransactionWithMeta option) \<times> 'l"

text \<open>
  The state a run threads through: the local \<^verbatim>\<open>uniqueAddresses\<close> (a JavaScript
  \<^verbatim>\<open>Set<string>\<close>, which iterates in insertion order, hence a list without
  repetitions), the ledger behind the connection, and the effects so far.
\<close>

record 'l state =
  uniqueAddresses :: "string list"
  ledger :: 'l
  trace :: "event list"

section \<open>The JavaScript built-ins the code uses\<close>

definition Set_has :: "string list \<Rightarrow> string \<Rightarrow> bool" where
  "Set_has s x = (x \<in> set s)"

definition Set_add :: "string list \<Rightarrow> string \<Rightarrow> string list" where
  "Set_add s x = (if Set_has s x then s else s @ [x])"

definition Set_size :: "string list \<Rightarrow> nat" where
  "Set_size s = length s"

definition Array_from :: "string list \<Rightarrow> string list" where
  "Array_from s = s"

text \<open>
  \<^verbatim>\<open>Array.prototype.join\<close> as ECMAScript defines it: a result string \<open>R\<close>, an index
  \<open>k\<close>; before every element but the first the separator is appended.
\<close>

fun join_loop :: "string \<Rightarrow> string \<Rightarrow> nat \<Rightarrow> string list \<Rightarrow> string" where
  "join_loop sep R k [] = R"
| "join_loop sep R k (element # rest) =
     join_loop sep ((if k > 0 then R @ sep else R) @ element) (k + 1) rest"

definition join :: "string list \<Rightarrow> string \<Rightarrow> string" where
  "join strings sep = join_loop sep [] 0 strings"

definition emit :: "event \<Rightarrow> 'l state \<Rightarrow> 'l state" where
  "emit e st = st\<lparr>trace := trace st @ [e]\<rparr>"

section \<open>createCSV\<close>

text \<open>
  \<^verbatim>\<open>createCSV(strings, filePath)\<close> (the same text in both files): the content is
  \<^verbatim>\<open>strings.join(";") + "\n"\<close>; it is written to the file, then a line is logged.
\<close>

definition csvContent :: "string list \<Rightarrow> string" where
  "csvContent strings = join strings '';'' @ ''\<newline>''"

definition createCSV :: "string list \<Rightarrow> string \<Rightarrow> event list" where
  "createCSV strings filePath =
     [WriteTextFile filePath (csvContent strings), Console (CsvFileCreated filePath)]"

section \<open>getInteractingAddresses\<close>

text \<open>The options literal \<^verbatim>\<open>{ limit: 1000 }\<close> of both files.\<close>

definition listOptions :: SignaturesForAddressOptions where
  "listOptions = \<lparr>before = None, until = None, limit = Some 1000\<rparr>"

text \<open>
  \<^verbatim>\<open>await connection.getSignaturesForAddress(contractKey, { limit: 1000 })\<close>.
\<close>

definition listSignatures ::
  "'l web3 \<Rightarrow> 'l state \<Rightarrow> string \<Rightarrow> (js_error + ConfirmedSignatureInfo list) \<times> 'l state" where
  "listSignatures connection st contractKey =
     (let (r, l') = getSignaturesForAddress connection (ledger st) contractKey listOptions
      in (r, emit (GetSignaturesForAddress contractKey listOptions r) (st\<lparr>ledger := l'\<rparr>)))"

text \<open>
  \<^verbatim>\<open>await connection.getParsedTransaction(signatureInfo.signature,
  { "maxSupportedTransactionVersion": 0 })\<close>, the body of the \<^verbatim>\<open>try\<close> block.
\<close>

definition fetchTransaction ::
  "'l web3 \<Rightarrow> 'l state \<Rightarrow> ConfirmedSignatureInfo
    \<Rightarrow> (js_error + ParsedTransactionWithMeta option) \<times> 'l state" where
  "fetchTransaction connection st signatureInfo =
     (let (r, l') = getParsedTransaction connection (ledger st) (signature signatureInfo) 0
      in (r, emit (GetParsedTransaction (signature signatureInfo) 0 r) (st\<lparr>ledger := l'\<rparr>)))"

subsection \<open>src/main.ts\<close>

text \<open>
  The callback of \<^verbatim>\<open>accountKeys.forEach\<close> in main.ts: for a signer, add the key,
  then log it with the size of the set after the insertion (also when the key was
  there already).
\<close>

definition forEachAccount_main :: "'l state \<Rightarrow> ParsedMessageAccount \<Rightarrow> 'l state" where
  "forEachAccount_main st account =
     (if signer account then
        (let st1 = st\<lparr>uniqueAddresses := Set_add (uniqueAddresses st) (pubkey account)\<rparr>
         in emit (Console (FoundNewUniqueAddress (pubkey account)
                    (Set_size (uniqueAddresses st1)))) st1)
      else st)"

text \<open>
  How a loop iteration ends: it falls through or \<^verbatim>\<open>continue\<close>s to the next one, or a
  \<^verbatim>\<open>return\<close> statement leaves the function with a value.
\<close>

datatype control = Next | Return "string list"

text \<open>
  One iteration of \<^verbatim>\<open>for (const signatureInfo of signatures)\<close> in main.ts. The
  local \<^verbatim>\<open>currentBlockTime\<close> (0 at first) is passed in and out; \<^verbatim>\<open>blockTime\<close> may be
  \<^verbatim>\<open>null\<close> or missing, and \<^verbatim>\<open>!==\<close> compares it as it is.
\<close>

definition signatureStep_main ::
  "'l web3 \<Rightarrow> 'l state \<Rightarrow> js_time \<Rightarrow> ConfirmedSignatureInfo
    \<Rightarrow> control \<times> 'l state \<times> js_time" where
  "signatureStep_main connection st currentBlockTime signatureInfo =
     (let st1 = emit (Console (FetchingTransaction (signature signatureInfo))) st;
          (st2, currentBlockTime') =
            (if currentBlockTime \<noteq> blockTime signatureInfo
             then (emit (Console (NewBlockTime (blockTime signatureInfo))) st1,
                   blockTime signatureInfo)
             else (st1, currentBlockTime));
          (r, st3) = fetchTransaction connection st2 signatureInfo
      in case r of
           Inl error \<Rightarrow>
             (let st4 = emit (Console (ErrorFetchingTransaction error)) st3
              in (Return (Array_from (uniqueAddresses st4)), st4, currentBlockTime'))
         | Inr None \<Rightarrow>
             (Next, emit (Console TransactionNotFound) st3, currentBlockTime')
         | Inr (Some transaction) \<Rightarrow>
             (case accountKeys transaction of
                None \<Rightarrow> (Next, emit (Console MessageNotFound) st3, currentBlockTime')
              | Some keys \<Rightarrow>
                  (Next, emit (Sleep 5000) (foldl forEachAccount_main st3 keys),
                   currentBlockTime')))"

fun forSignatures_main ::
  "'l web3 \<Rightarrow> 'l state \<Rightarrow> js_time \<Rightarrow> ConfirmedSignatureInfo list \<Rightarrow> control \<times> 'l state" where
  "forSignatures_main connection st currentBlockTime [] = (Next, st)"
| "forSignatures_main connection st currentBlockTime (signatureInfo # rest) =
     (case signatureStep_main connection st currentBlockTime signatureInfo of
        (Return v, st', _) \<Rightarrow> (Return v, st')
      | (Next, st', currentBlockTime') \<Rightarrow>
          forSignatures_main connection st' currentBlockTime' rest)"

text \<open>
  The loop \<^verbatim>\<open>for (const contract of contractPublicKey)\<close> of main.ts. An exception
  of \<^verbatim>\<open>new PublicKey\<close> or of the listing is not caught: the promise rejects
  (\<open>Inl\<close>).
\<close>

fun forContracts_main ::
  "'l web3 \<Rightarrow> 'l state \<Rightarrow> string list \<Rightarrow> (js_error + control) \<times> 'l state" where
  "forContracts_main connection st [] = (Inr Next, st)"
| "forContracts_main connection st (contract # rest) =
     (case PublicKey connection contract of
        Inl e \<Rightarrow> (Inl e, st)
      | Inr contractKey \<Rightarrow>
          (let st1 = emit (Console (FetchingSignatures contractKey)) st;
               (r, st2) = listSignatures connection st1 contractKey
           in case r of
                Inl e \<Rightarrow> (Inl e, st2)
              | Inr signatures \<Rightarrow>
                  (case forSignatures_main connection st2 (Number 0) signatures of
                     (Return v, st3) \<Rightarrow> (Inr (Return v), st3)
                   | (Next, st3) \<Rightarrow> forContracts_main connection st3 rest)))"

text \<open>
  \<^verbatim>\<open>getInteractingAddresses(connectionUrl, contractPublicKey)\<close> of main.ts. Its first
  statement is \<^verbatim>\<open>new Connection(connectionUrl, "confirmed")\<close>. The constructor belongs
  to the library, so it is the parameter \<open>Connection\<close>: it throws (\<open>Inl\<close>; the library
  does so on a URL that does not start with \<^verbatim>\<open>http:\<close> or \<^verbatim>\<open>https:\<close>) or gives the
  connection. The exception is not caught, and it comes before the set is made and
  before any call. \<open>l\<close> is the ledger the connection talks to; the set starts empty.
  After the loop comes \<^verbatim>\<open>return Array.from(uniqueAddresses)\<close>. The final state is
  returned with the result, so that the effects of a run can be stated.
\<close>

definition getInteractingAddresses_main ::
  "(string \<Rightarrow> string \<Rightarrow> js_error + 'l web3) \<Rightarrow> 'l \<Rightarrow> string \<Rightarrow> string list
    \<Rightarrow> (js_error + string list) \<times> 'l state" where
  "getInteractingAddresses_main Connection l connectionUrl contractPublicKey =
     (case Connection connectionUrl ''confirmed'' of
        Inl e \<Rightarrow> (Inl e, \<lparr>uniqueAddresses = [], ledger = l, trace = []\<rparr>)
      | Inr connection \<Rightarrow>
          (case forContracts_main connection \<lparr>uniqueAddresses = [], ledger = l, trace = []\<rparr>
                  contractPublicKey of
             (Inl e, st) \<Rightarrow> (Inl e, st)
           | (Inr (Return v), st) \<Rightarrow> (Inr v, st)
           | (Inr Next, st) \<Rightarrow> (Inr (Array_from (uniqueAddresses st)), st)))"

subsection \<open>src/unnamed/part_000\<close>

text \<open>
  The callback of \<^verbatim>\<open>accountKeys.forEach\<close> in part_000: for a signer, log the key
  when the set does not have it yet, then add it.
\<close>

definition forEachAccount_part000 :: "'l state \<Rightarrow> ParsedMessageAccount \<Rightarrow> 'l state" where
  "forEachAccount_part000 st account =
     (if signer account then
        (let st1 = (if \<not> Set_has (uniqueAddresses st) (pubkey account)
                    then emit (Console (FoundNewUniqueAddress (pubkey account)
                                 (Set_size (uniqueAddresses st) + 1))) st
                    else st)
         in st1\<lparr>uniqueAddresses := Set_add (uniqueAddresses st1) (pubkey account)\<rparr>)
      else st)"

text \<open>
  One iteration of the loop over the signatures in part_000. The \<^verbatim>\<open>catch\<close> block
  logs, sleeps 10000 ms and continues; no path leaves the function.
\<close>

definition signatureStep_part000 ::
  "'l web3 \<Rightarrow> 'l state \<Rightarrow> nat \<Rightarrow> ConfirmedSignatureInfo \<Rightarrow> 'l state \<times> nat" where
  "signatureStep_part000 connection st currentBlockSlot signatureInfo =
     (let (st1, currentBlockSlot') =
            (if currentBlockSlot \<noteq> slot signatureInfo
             then (emit (Console (NewBlockSlot (slot signatureInfo))) st, slot signatureInfo)
             else (st, currentBlockSlot));
          (r, st2) = fetchTransaction connection st1 signatureInfo
      in case r of
           Inl error \<Rightarrow>
             (emit (Console Continuing)
                (emit (Sleep 10000)
                   (emit (Console SleepingFor10Seconds)
                      (emit (Console (ErrorFetchingTransaction error)) st2))),
              currentBlockSlot')
         | Inr None \<Rightarrow> (emit (Console TransactionNotFound) st2, currentBlockSlot')
         | Inr (Some transaction) \<Rightarrow>
             (case accountKeys transaction of
                None \<Rightarrow> (emit (Console MessageNotFound) st2, currentBlockSlot')
              | Some keys \<Rightarrow>
                  (emit (Sleep 100) (foldl forEachAccount_part000 st2 keys),
                   currentBlockSlot')))"

fun forSignatures_part000 ::
  "'l web3 \<Rightarrow> 'l state \<Rightarrow> nat \<Rightarrow> ConfirmedSignatureInfo list \<Rightarrow> 'l state" where
  "forSignatures_part000 connection st currentBlockSlot [] = st"
| "forSignatures_part000 connection st currentBlockSlot (signatureInfo # rest) =
     (case signatureStep_part000 connection st currentBlockSlot signatureInfo of
        (st', currentBlockSlot') \<Rightarrow>
          forSignatures_part000 connection st' currentBlockSlot' rest)"

text \<open>
  The loop over the contracts in part_000: \<open>Some e\<close> when \<^verbatim>\<open>new PublicKey\<close> or the
  listing threw \<open>e\<close>, \<open>None\<close> when the loop ran to its end.
\<close>

fun forContracts_part000 ::
  "'l web3 \<Rightarrow> 'l state \<Rightarrow> string list \<Rightarrow> js_error option \<times> 'l state" where
  "forContracts_part000 connection st [] = (None, st)"
| "forContracts_part000 connection st (contract # rest) =
     (case PublicKey connection contract of
        Inl e \<Rightarrow> (Some e, st)
      | Inr contractKey \<Rightarrow>
          (let st1 = emit (Console (FetchingSignatures contractKey)) st;
               (r, st2) = listSignatures connection st1 contractKey
           in case r of
                Inl e \<Rightarrow> (Some e, st2)
              | Inr signatures \<Rightarrow>
                  forContracts_part000 connection
                    (forSignatures_part000 connection st2 0 signatures) rest))"

text \<open>
  \<^verbatim>\<open>getInteractingAddresses(connectionUrl, contractPublicKey)\<close> of part_000, with the
  same first statement \<^verbatim>\<open>new Connection(connectionUrl, "confirmed")\<close>.
\<close>

definition getInteractingAddresses_part000 ::
  "(string \<Rightarrow> string \<Rightarrow> js_error + 'l web3) \<Rightarrow> 'l \<Rightarrow> string \<Rightarrow> string list
    \<Rightarrow> (js_error + string list) \<times> 'l state" where
  "getInteractingAddresses_part000 Connection l connectionUrl contractPublicKey =
     (case Connection connectionUrl ''confirmed'' of
        Inl e \<Rightarrow> (Inl e, \<lparr>uniqueAddresses = [], ledger = l, trace = []\<rparr>)
      | Inr connection \<Rightarrow>
          (case forContracts_part000 connection
                  \<lparr>uniqueAddresses = [], ledger = l, trace = []\<rparr> contractPublicKey of
             (Some e, st) \<Rightarrow> (Inl e, st)
           | (None, st) \<Rightarrow> (Inr (Array_from (uniqueAddresses st)), st)))"

section \<open>Notions the properties are stated with\<close>

text \<open>
  Console lines are progress output; the effects that matter to the properties are the
  RPC calls, the sleeps and the file write.
\<close>

fun isConsole :: "event \<Rightarrow> bool" where
  "isConsole (Console c) = True"
| "isConsole _ = False"

definition effects :: "event list \<Rightarrow> event list" where
  "effects tr = filter (\<lambda>e. \<not> isConsole e) tr"

fun isSleep :: "event \<Rightarrow> bool" where
  "isSleep (Sleep ms) = True"
| "isSleep _ = False"

text \<open>The calls of a trace: its effects without the sleeps.\<close>

definition calls :: "event list \<Rightarrow> event list" where
  "calls tr = filter (\<lambda>e. \<not> isSleep e) (effects tr)"

text \<open>The signer keys of an account list, in its order.\<close>

definition signersOf :: "ParsedMessageAccount list \<Rightarrow> string list" where
  "signersOf keys = map pubkey (filter signer keys)"

text \<open>
  A transaction is processed when its fetch resolved to a transaction that has an
  account list; \<open>delivered\<close> is that list, for a fetch event of a trace.
\<close>

fun delivered :: "event \<Rightarrow> ParsedMessageAccount list option" where
  "delivered (GetParsedTransaction sg v (Inr (Some transaction))) = accountKeys transaction"
| "delivered _ = None"

definition observedSigners :: "event list \<Rightarrow> string list" where
  "observedSigners tr =
     concat (map (\<lambda>e. case delivered e of None \<Rightarrow> [] | Some keys \<Rightarrow> signersOf keys) tr)"

text \<open>A list reduced to the first occurrence of each of its elements.\<close>

fun firstOccurrences :: "'a list \<Rightarrow> 'a list" where
  "firstOccurrences [] = []"
| "firstOccurrences (x # xs) = x # filter (\<lambda>y. y \<noteq> x) (firstOccurrences xs)"

text \<open>The listing calls and the fetch calls of a trace, with their arguments.\<close>

fun listingCall :: "event \<Rightarrow> (string \<times> SignaturesForAddressOptions) list" where
  "listingCall (GetSignaturesForAddress contractKey opts r) = [(contractKey, opts)]"
| "listingCall _ = []"

definition listingCalls :: "event list \<Rightarrow> (string \<times> SignaturesForAddressOptions) list" where
  "listingCalls tr = concat (map listingCall tr)"

fun fetchCall :: "event \<Rightarrow> string list" where
  "fetchCall (GetParsedTransaction sg v r) = [sg]"
| "fetchCall _ = []"

definition fetchCalls :: "event list \<Rightarrow> string list" where
  "fetchCalls tr = concat (map fetchCall tr)"

text \<open>
  The effects of one iteration of the loop over the signatures, from what the fetch
  resolved to: \<open>delay\<close> is the sleep at the end of the loop body, \<open>cooldown\<close> the sleep
  of the \<^verbatim>\<open>catch\<close> block, if it has one.
\<close>

definition iterationEffects ::
  "nat \<Rightarrow> nat option \<Rightarrow> string \<Rightarrow> js_error + ParsedTransactionWithMeta option \<Rightarrow> event list" where
  "iterationEffects delay cooldown sg r =
     GetParsedTransaction sg 0 r #
       (case r of
          Inl e \<Rightarrow> (case cooldown of None \<Rightarrow> [] | Some ms \<Rightarrow> [Sleep ms])
        | Inr None \<Rightarrow> []
        | Inr (Some transaction) \<Rightarrow>
            (case accountKeys transaction of None \<Rightarrow> [] | Some keys \<Rightarrow> [Sleep delay]))"

text \<open>A fetch whose promise rejected.\<close>

fun isFetchError :: "event \<Rightarrow> bool" where
  "isFetchError (GetParsedTransaction sg v (Inl e)) = True"
| "isFetchError _ = False"

text \<open>
  The sleeps that follow a call in main.ts and in part_000, and a list of calls with
  the sleeps put after each.
\<close>

definition delayAfter_main :: "event \<Rightarrow> nat list" where
  "delayAfter_main e = (case delivered e of None \<Rightarrow> [] | Some keys \<Rightarrow> [5000])"

definition delayAfter_part000 :: "event \<Rightarrow> nat list" where
  "delayAfter_part000 e =
     (if isFetchError e then [10000]
      else case delivered e of None \<Rightarrow> [] | Some keys \<Rightarrow> [100])"

definition withDelays :: "(event \<Rightarrow> nat list) \<Rightarrow> event list \<Rightarrow> event list" where
  "withDelays d es = concat (map (\<lambda>e. e # map Sleep (d e)) es)"

text \<open>Effects in which every call is followed by exactly the sleeps \<open>d\<close> gives for it.\<close>

definition wellDelayed :: "(event \<Rightarrow> nat list) \<Rightarrow> event list \<Rightarrow> bool" where
  "wellDelayed d es = (es = withDelays d (filter (\<lambda>e. \<not> isSleep e) es))"

text \<open>
  The words of the specification for the serialized record: the entries joined by a
  delimiter, that is, a delimiter between every two neighbours and nowhere else.
\<close>

fun joinedBy :: "string \<Rightarrow> string list \<Rightarrow> string" where
  "joinedBy sep [] = []"
| "joinedBy sep [x] = x"
| "joinedBy sep (x # y # ys) = x @ sep @ joinedBy sep (y # ys)"

text \<open>The state \<^verbatim>\<open>getInteractingAddresses\<close> starts in.\<close>

definition initial :: "'l \<Rightarrow> 'l state" where
  "initial l = \<lparr>uniqueAddresses = [], ledger = l, trace = []\<rparr>"

section \<open>An example ledger\<close>

text \<open>
  A connection for concrete runs. Its ledger state counts the calls made. The contract
  \<open>A\<close> has the signatures \<open>s1\<close> to \<open>s4\<close>, the contract \<open>B\<close> has \<open>s5\<close>; the key
  constructor rejects \<open>bad\<close>. The transaction of \<open>s1\<close> is signed by \<open>P1\<close> and \<open>P2\<close>,
  that of \<open>s4\<close> by \<open>P3\<close> and \<open>P1\<close>; \<open>s2\<close> is not found, the fetch of \<open>s3\<close> fails,
  and the transaction of \<open>s5\<close> has no account list.
\<close>

definition exampleSignatures :: "string \<Rightarrow> ConfirmedSignatureInfo list" where
  "exampleSignatures contractKey =
     (if contractKey = ''A'' then
        [\<lparr>signature = ''s1'', slot = 7, blockTime = Number 100\<rparr>,
         \<lparr>signature = ''s2'', slot = 7, blockTime = Null\<rparr>,
         \<lparr>signature = ''s3'', slot = 6, blockTime = Number 90\<rparr>,
         \<lparr>signature = ''s4'', slot = 5, blockTime = Number 90\<rparr>]
      else if contractKey = ''B'' then
        [\<lparr>signature = ''s5'', slot = 4, blockTime = Number 80\<rparr>]
      else [])"

definition exampleTransaction :: "string \<Rightarrow> js_error + ParsedTransactionWithMeta option" where
  "exampleTransaction sg =
     (if sg = ''s1'' then
        Inr (Some \<lparr>accountKeys = Some
          [\<lparr>pubkey = ''P1'', signer = True\<rparr>, \<lparr>pubkey = ''Q'', signer = False\<rparr>,
           \<lparr>pubkey = ''P2'', signer = True\<rparr>]\<rparr>)
      else if sg = ''s3'' then Inl (Error ''429 Too Many Requests'')
      else if sg = ''s4'' then
        Inr (Some \<lparr>accountKeys = Some
          [\<lparr>pubkey = ''P3'', signer = True\<rparr>, \<lparr>pubkey = ''P1'', signer = True\<rparr>]\<rparr>)
      else if sg = ''s5'' then Inr (Some \<lparr>accountKeys = None\<rparr>)
      else Inr None)"

text \<open>The constant \<^verbatim>\<open>rpcUrl\<close> of main.ts.\<close>

definition rpcUrl :: string where
  "rpcUrl = ''https://api.mainnet-beta.solana.com''"

definition exampleConnection :: "nat web3" where
  "exampleConnection =
     \<lparr>PublicKey = (\<lambda>contract.
        if contract = ''bad'' then Inl (Error ''Invalid public key input'') else Inr contract),
      getSignaturesForAddress = (\<lambda>l contractKey opts. (Inr (exampleSignatures contractKey), l + 1)),
      getParsedTransaction = (\<lambda>l sg v. (exampleTransaction sg, l + 1))\<rparr>"

text \<open>
  The constructor of the example: it accepts the URLs the library accepts and then
  gives the connection above.
\<close>

definition exampleConstructor :: "string \<Rightarrow> string \<Rightarrow> js_error + nat web3" where
  "exampleConstructor endpoint commitment =
     (if take 5 endpoint = ''http:'' \<or> take 6 endpoint = ''https:'' then Inr exampleConnection
      else Inl (Error ''Endpoint URL must start with http: or https:''))"

section \<open>Basic facts\<close>

lemma emit_simps [simp]:
  "uniqueAddresses (emit e st) = uniqueAddresses st"
  "ledger (emit e st) = ledger st"
  "trace (emit e st) = trace st @ [e]"
  by (simp_all add: emit_def)

lemma effects_append [simp]: "effects (xs @ ys) = effects xs @ effects ys"
  by (simp add: effects_def)

lemma effects_Nil [simp]: "effects [] = []"
  by (simp add: effects_def)

lemma effects_Cons [simp]:
  "effects (e # es) = (if isConsole e then effects es else e # effects es)"
  by (simp add: effects_def)

section \<open>Serialization\<close>

lemma join_loop_joinedBy:
  "join_loop sep R k (x # xs) = (if k > 0 then R @ sep else R) @ joinedBy sep (x # xs)"
proof (induction xs arbitrary: R k x)
  case Nil
  then show ?case by simp
next
  case (Cons y ys)
  have "join_loop sep R k (x # y # ys) =
          join_loop sep ((if k > 0 then R @ sep else R) @ x) (k + 1) (y # ys)"
    by simp
  also have "\<dots> = (((if k > 0 then R @ sep else R) @ x) @ sep) @ joinedBy sep (y # ys)"
    by (simp only: Cons.IH) simp
  finally show ?case by simp
qed

lemma join_joinedBy: "join xs sep = joinedBy sep xs"
  by (cases xs) (simp_all add: join_def join_loop_joinedBy del: join_loop.simps(2))

lemma joinedBy_Cons: "joinedBy sep (x # xs) = x @ concat (map ((@) sep) xs)"
  by (induction xs arbitrary: x) simp_all

text \<open>
  C5. The content \<^verbatim>\<open>createCSV\<close> writes is the entries joined by \<open>;\<close> and one line
  break after them: the first entry stands at the start (no header row), every later
  entry follows one \<open>;\<close> as it is (no escaping), and for the entries \<open>Addr1\<close>,
  \<open>Addr2\<close> the content is \<open>Addr1;Addr2\<close> and a line break.
\<close>

theorem createCSV_joins_entries:
  "createCSV strings filePath =
     [WriteTextFile filePath (joinedBy '';'' strings @ ''\<newline>''),
      Console (CsvFileCreated filePath)]
   \<and> csvContent (x # xs) = x @ concat (map ((@) '';'') xs) @ ''\<newline>''
   \<and> createCSV [''Addr1'', ''Addr2''] filePath =
     [WriteTextFile filePath ''Addr1;Addr2\<newline>'', Console (CsvFileCreated filePath)]"
  by (simp add: createCSV_def csvContent_def join_joinedBy joinedBy_Cons)

section \<open>The empty list of contracts\<close>

text \<open>
  C10, as the code has it. For the empty list of contract addresses
  \<^verbatim>\<open>getInteractingAddresses\<close> of either file has no effect at all (no listing call, no
  fetch call, the ledger as it was). It returns the empty list when the constructor of
  the connection accepts the URL, and fails with the constructor's exception when it
  does not. \<^verbatim>\<open>createCSV\<close> of the empty list writes one line break.
\<close>

theorem empty_contracts_empty_result:
  "getInteractingAddresses_main Connection l connectionUrl [] =
     (case Connection connectionUrl ''confirmed'' of Inl e \<Rightarrow> Inl e | Inr connection \<Rightarrow> Inr [],
      \<lparr>uniqueAddresses = [], ledger = l, trace = []\<rparr>)
   \<and> getInteractingAddresses_part000 Connection l connectionUrl [] =
     (case Connection connectionUrl ''confirmed'' of Inl e \<Rightarrow> Inl e | Inr connection \<Rightarrow> Inr [],
      \<lparr>uniqueAddresses = [], ledger = l, trace = []\<rparr>)
   \<and> createCSV [] filePath =
     [WriteTextFile filePath ''\<newline>'', Console (CsvFileCreated filePath)]"
  by (simp add: getInteractingAddresses_main_def getInteractingAddresses_part000_def
      Array_from_def createCSV_def csvContent_def join_def split: sum.splits)

text \<open>
  With the constructor of the example, which like the library's rejects a URL that does
  not start with \<open>http:\<close> or \<open>https:\<close>, the run of either file over the empty list of
  contracts and the URL \<open>not-a-url\<close> does not return the empty list: it fails.
\<close>

theorem empty_contracts_bad_url_fails:
  "fst (getInteractingAddresses_main exampleConstructor 0 ''not-a-url'' []) =
     Inl (Error ''Endpoint URL must start with http: or https:'')
   \<and> fst (getInteractingAddresses_part000 exampleConstructor 0 ''not-a-url'' []) =
     Inl (Error ''Endpoint URL must start with http: or https:'')
   \<and> fst (getInteractingAddresses_main exampleConstructor 0 ''not-a-url'' []) \<noteq> Inr []
   \<and> fst (getInteractingAddresses_part000 exampleConstructor 0 ''not-a-url'' []) \<noteq> Inr []"
  by (simp add: getInteractingAddresses_main_def getInteractingAddresses_part000_def
      exampleConstructor_def)

section \<open>The set\<close>

lemma firstOccurrences_filter:
  "firstOccurrences (filter P xs) = filter P (firstOccurrences xs)"
proof (induction xs)
  case Nil
  then show ?case by simp
next
  case (Cons x xs)
  show ?case
  proof (cases "P x")
    case True
    then show ?thesis
      by (simp add: Cons.IH conj_commute)
  next
    case False
    have "filter P (filter (\<lambda>y. y \<noteq> x) (firstOccurrences xs)) = filter P (firstOccurrences xs)"
      using False by (auto intro: filter_cong)
    with False show ?thesis
      by (simp add: Cons.IH)
  qed
qed

lemma set_firstOccurrences [simp]: "set (firstOccurrences xs) = set xs"
  by (induction xs) auto

lemma distinct_firstOccurrences [simp]: "distinct (firstOccurrences xs)"
  by (induction xs) auto

lemma foldl_Set_add:
  "foldl Set_add s xs = s @ firstOccurrences (filter (\<lambda>x. x \<notin> set s) xs)"
proof (induction xs arbitrary: s)
  case Nil
  then show ?case by simp
next
  case (Cons x xs)
  show ?case
  proof (cases "x \<in> set s")
    case True
    then have "Set_add s x = s"
      by (simp add: Set_add_def Set_has_def)
    with True show ?thesis
      by (simp add: Cons.IH)
  next
    case False
    have "filter (\<lambda>y. y \<notin> set (s @ [x])) xs = filter (\<lambda>y. y \<noteq> x) (filter (\<lambda>y. y \<notin> set s) xs)"
      by (auto intro: filter_cong)
    moreover from False have "Set_add s x = s @ [x]"
      by (simp add: Set_add_def Set_has_def)
    ultimately show ?thesis
      using False by (simp add: Cons.IH firstOccurrences_filter)
  qed
qed

lemma foldl_Set_add_Nil: "foldl Set_add [] xs = firstOccurrences xs"
  by (simp add: foldl_Set_add)

lemma prefix_foldl_Set_add: "prefix s (foldl Set_add s xs)"
  by (simp add: foldl_Set_add)


section \<open>Projections of a trace\<close>

lemma observedSigners_append [simp]:
  "observedSigners (xs @ ys) = observedSigners xs @ observedSigners ys"
  by (simp add: observedSigners_def)

lemma observedSigners_effects [simp]: "observedSigners (effects tr) = observedSigners tr"
  by (induction tr rule: rev_induct) (auto simp: observedSigners_def elim: isConsole.elims)

lemma observedSigners_iteration:
  "observedSigners (iterationEffects delay cooldown sg r) =
     (case r of Inr (Some transaction) \<Rightarrow>
        (case accountKeys transaction of None \<Rightarrow> [] | Some keys \<Rightarrow> signersOf keys)
      | _ \<Rightarrow> [])"
  by (auto simp: observedSigners_def iterationEffects_def split: sum.splits option.splits)

section \<open>The callbacks\<close>

lemma forEach_main_unique:
  "uniqueAddresses (foldl forEachAccount_main st keys) =
     foldl Set_add (uniqueAddresses st) (signersOf keys)"
  by (induction keys arbitrary: st) (simp_all add: signersOf_def forEachAccount_main_def Let_def)

lemma forEach_main_ledger: "ledger (foldl forEachAccount_main st keys) = ledger st"
  by (induction keys arbitrary: st) (simp_all add: forEachAccount_main_def Let_def)

lemma forEach_main_effects:
  "effects (trace (foldl forEachAccount_main st keys)) = effects (trace st)"
  by (induction keys arbitrary: st) (simp_all add: forEachAccount_main_def Let_def)

lemma forEach_part000_unique:
  "uniqueAddresses (foldl forEachAccount_part000 st keys) =
     foldl Set_add (uniqueAddresses st) (signersOf keys)"
  by (induction keys arbitrary: st)
    (simp_all add: signersOf_def forEachAccount_part000_def Let_def)

lemma forEach_part000_ledger: "ledger (foldl forEachAccount_part000 st keys) = ledger st"
  by (induction keys arbitrary: st) (simp_all add: forEachAccount_part000_def Let_def)

lemma forEach_part000_effects:
  "effects (trace (foldl forEachAccount_part000 st keys)) = effects (trace st)"
  by (induction keys arbitrary: st) (simp_all add: forEachAccount_part000_def Let_def)

section \<open>One iteration\<close>

text \<open>What the fetch of a signature resolves to in a state, and the ledger after it.\<close>

lemma step_main:
  assumes "signatureStep_main connection st cbt si = (c, st', cbt')"
    and "getParsedTransaction connection (ledger st) (signature si) 0 = (r, l')"
  shows "ledger st' = l'"
    and "effects (trace st') = effects (trace st) @ iterationEffects 5000 None (signature si) r"
    and "uniqueAddresses st' =
           foldl Set_add (uniqueAddresses st) (observedSigners (iterationEffects 5000 None (signature si) r))"
    and "c = (case r of Inl e \<Rightarrow> Return (uniqueAddresses st) | Inr t \<Rightarrow> Next)"
  using assms
  by (auto simp: signatureStep_main_def fetchTransaction_def iterationEffects_def Let_def
      forEach_main_effects forEach_main_unique forEach_main_ledger observedSigners_def Array_from_def
      split: prod.splits sum.splits option.splits if_splits)

lemma step_part000:
  assumes "signatureStep_part000 connection st cbs si = (st', cbs')"
    and "getParsedTransaction connection (ledger st) (signature si) 0 = (r, l')"
  shows "ledger st' = l'"
    and "effects (trace st') =
           effects (trace st) @ iterationEffects 100 (Some 10000) (signature si) r"
    and "uniqueAddresses st' =
           foldl Set_add (uniqueAddresses st)
             (observedSigners (iterationEffects 100 (Some 10000) (signature si) r))"
  using assms
  by (auto simp: signatureStep_part000_def fetchTransaction_def iterationEffects_def Let_def
      forEach_part000_effects forEach_part000_unique forEach_part000_ledger observedSigners_def
      split: prod.splits sum.splits option.splits if_splits)

section \<open>The loops\<close>

lemma observedSigners_Nil [simp]: "observedSigners [] = []"
  by (simp add: observedSigners_def)

text \<open>
  The effects of a loop are a sequence of chunks: one per iteration and, in the loop
  over the contracts, one per listing call. A property \<open>Q\<close> of all chunks that
  concatenation keeps holds of the effects of the whole loop.
\<close>

lemma forSignatures_main_chunks:
  assumes step: "\<And>sg r. Q (iterationEffects 5000 None sg r)"
    and nil: "Q []"
    and app: "\<And>a b. Q a \<Longrightarrow> Q b \<Longrightarrow> Q (a @ b)"
  shows "forSignatures_main connection st cbt sigs = (c, st') \<Longrightarrow>
    \<exists>es. effects (trace st') = effects (trace st) @ es \<and>
         uniqueAddresses st' = foldl Set_add (uniqueAddresses st) (observedSigners es) \<and> Q es"
proof (induction sigs arbitrary: st cbt)
  case Nil
  then show ?case using nil by auto
next
  case (Cons si sigs)
  obtain c1 st1 cbt1 where s: "signatureStep_main connection st cbt si = (c1, st1, cbt1)"
    by (cases "signatureStep_main connection st cbt si") auto
  obtain r l' where f: "getParsedTransaction connection (ledger st) (signature si) 0 = (r, l')"
    by (cases "getParsedTransaction connection (ledger st) (signature si) 0") auto
  let ?it = "iterationEffects 5000 None (signature si) r"
  have e1: "effects (trace st1) = effects (trace st) @ ?it"
    and u1: "uniqueAddresses st1 = foldl Set_add (uniqueAddresses st) (observedSigners ?it)"
    using step_main[OF s f] by simp_all
  show ?case
  proof (cases c1)
    case Next
    with Cons.prems s have "forSignatures_main connection st1 cbt1 sigs = (c, st')"
      by simp
    from Cons.IH[OF this] obtain es where
      es: "effects (trace st') = effects (trace st1) @ es"
        "uniqueAddresses st' = foldl Set_add (uniqueAddresses st1) (observedSigners es)" "Q es"
      by blast
    have "effects (trace st') = effects (trace st) @ (?it @ es)"
      using es(1) e1 by simp
    moreover have "uniqueAddresses st' =
        foldl Set_add (uniqueAddresses st) (observedSigners (?it @ es))"
      using es(2) u1 by simp
    moreover have "Q (?it @ es)"
      using app[OF step es(3)] .
    ultimately show ?thesis by blast
  next
    case (Return v)
    with Cons.prems s have "st' = st1" by simp
    with e1 u1 step show ?thesis by blast
  qed
qed

lemma forSignatures_part000_chunks:
  assumes step: "\<And>sg r. Q (iterationEffects 100 (Some 10000) sg r)"
    and nil: "Q []"
    and app: "\<And>a b. Q a \<Longrightarrow> Q b \<Longrightarrow> Q (a @ b)"
  shows "forSignatures_part000 connection st cbs sigs = st' \<Longrightarrow>
    \<exists>es. effects (trace st') = effects (trace st) @ es \<and>
         uniqueAddresses st' = foldl Set_add (uniqueAddresses st) (observedSigners es) \<and> Q es"
proof (induction sigs arbitrary: st cbs)
  case Nil
  then show ?case using nil by auto
next
  case (Cons si sigs)
  obtain st1 cbs1 where s: "signatureStep_part000 connection st cbs si = (st1, cbs1)"
    by (cases "signatureStep_part000 connection st cbs si") auto
  obtain r l' where f: "getParsedTransaction connection (ledger st) (signature si) 0 = (r, l')"
    by (cases "getParsedTransaction connection (ledger st) (signature si) 0") auto
  let ?it = "iterationEffects 100 (Some 10000) (signature si) r"
  have e1: "effects (trace st1) = effects (trace st) @ ?it"
    and u1: "uniqueAddresses st1 = foldl Set_add (uniqueAddresses st) (observedSigners ?it)"
    using step_part000[OF s f] by simp_all
  from Cons.prems s have "forSignatures_part000 connection st1 cbs1 sigs = st'"
    by simp
  from Cons.IH[OF this] obtain es where
    es: "effects (trace st') = effects (trace st1) @ es"
      "uniqueAddresses st' = foldl Set_add (uniqueAddresses st1) (observedSigners es)" "Q es"
    by blast
  have "effects (trace st') = effects (trace st) @ (?it @ es)"
    using es(1) e1 by simp
  moreover have "uniqueAddresses st' =
      foldl Set_add (uniqueAddresses st) (observedSigners (?it @ es))"
    using es(2) u1 by simp
  moreover have "Q (?it @ es)"
    using app[OF step es(3)] .
  ultimately show ?case by blast
qed

lemma listSignatures_facts:
  assumes "listSignatures connection st contractKey = (r, st')"
  shows "uniqueAddresses st' = uniqueAddresses st"
    and "effects (trace st') =
           effects (trace st) @ [GetSignaturesForAddress contractKey listOptions r]"
    and "getSignaturesForAddress connection (ledger st) contractKey listOptions = (r, ledger st')"
  using assms by (auto simp: listSignatures_def split: prod.splits)

lemma forContracts_main_chunks:
  assumes step: "\<And>sg r. Q (iterationEffects 5000 None sg r)"
    and listing: "\<And>k r. Q [GetSignaturesForAddress k listOptions r]"
    and nil: "Q []"
    and app: "\<And>a b. Q a \<Longrightarrow> Q b \<Longrightarrow> Q (a @ b)"
  shows "forContracts_main connection st contracts = (out, st') \<Longrightarrow>
    \<exists>es. effects (trace st') = effects (trace st) @ es \<and>
         uniqueAddresses st' = foldl Set_add (uniqueAddresses st) (observedSigners es) \<and> Q es"
proof (induction contracts arbitrary: st)
  case Nil
  then show ?case using nil by auto
next
  case (Cons contract rest)
  show ?case
  proof (cases "PublicKey connection contract")
    case (Inl e)
    with Cons.prems have "st' = st" by simp
    then show ?thesis using nil by auto
  next
    case (Inr contractKey)
    let ?st1 = "emit (Console (FetchingSignatures contractKey)) st"
    obtain r st2 where ls: "listSignatures connection ?st1 contractKey = (r, st2)"
      by (cases "listSignatures connection ?st1 contractKey") auto
    let ?ev = "[GetSignaturesForAddress contractKey listOptions r]"
    have e2: "effects (trace st2) = effects (trace st) @ ?ev"
      and u2: "uniqueAddresses st2 = uniqueAddresses st"
      using listSignatures_facts[OF ls] by simp_all
    have o2: "observedSigners ?ev = []"
      by (simp add: observedSigners_def)
    show ?thesis
    proof (cases r)
      case (Inl e)
      with Cons.prems Inr ls have "st' = st2" by simp
      with e2 u2 o2 listing show ?thesis by (metis foldl_Nil)
    next
      case sigs: (Inr signatures)
      obtain c st3 where fs: "forSignatures_main connection st2 (Number 0) signatures = (c, st3)"
        by (cases "forSignatures_main connection st2 (Number 0) signatures") auto
      from forSignatures_main_chunks[of Q, OF step nil app fs] obtain es where
        es: "effects (trace st3) = effects (trace st2) @ es"
          "uniqueAddresses st3 = foldl Set_add (uniqueAddresses st2) (observedSigners es)" "Q es"
        by blast
      have e3: "effects (trace st3) = effects (trace st) @ (?ev @ es)"
        using es(1) e2 by simp
      have u3: "uniqueAddresses st3 =
          foldl Set_add (uniqueAddresses st) (observedSigners (?ev @ es))"
        using es(2) u2 o2 by (simp only: observedSigners_append append_Nil)
      have q3: "Q (?ev @ es)"
        using app[OF listing es(3)] .
      show ?thesis
      proof (cases c)
        case Next
        with Cons.prems Inr ls sigs fs have "forContracts_main connection st3 rest = (out, st')"
          by simp
        from Cons.IH[OF this] obtain es' where
          es': "effects (trace st') = effects (trace st3) @ es'"
            "uniqueAddresses st' = foldl Set_add (uniqueAddresses st3) (observedSigners es')"
            "Q es'"
          by blast
        have "effects (trace st') = effects (trace st) @ ((?ev @ es) @ es')"
          using es'(1) e3 by simp
        moreover have "uniqueAddresses st' =
            foldl Set_add (uniqueAddresses st) (observedSigners ((?ev @ es) @ es'))"
          using es'(2) u3 by (simp only: observedSigners_append foldl_append)
        moreover have "Q ((?ev @ es) @ es')"
          using app[OF q3 es'(3)] .
        ultimately show ?thesis by blast
      next
        case (Return v)
        with Cons.prems Inr ls sigs fs have "st' = st3" by simp
        with e3 u3 q3 show ?thesis by blast
      qed
    qed
  qed
qed

lemma forContracts_part000_chunks:
  assumes step: "\<And>sg r. Q (iterationEffects 100 (Some 10000) sg r)"
    and listing: "\<And>k r. Q [GetSignaturesForAddress k listOptions r]"
    and nil: "Q []"
    and app: "\<And>a b. Q a \<Longrightarrow> Q b \<Longrightarrow> Q (a @ b)"
  shows "forContracts_part000 connection st contracts = (out, st') \<Longrightarrow>
    \<exists>es. effects (trace st') = effects (trace st) @ es \<and>
         uniqueAddresses st' = foldl Set_add (uniqueAddresses st) (observedSigners es) \<and> Q es"
proof (induction contracts arbitrary: st)
  case Nil
  then show ?case using nil by auto
next
  case (Cons contract rest)
  show ?case
  proof (cases "PublicKey connection contract")
    case (Inl e)
    with Cons.prems have "st' = st" by simp
    then show ?thesis using nil by auto
  next
    case (Inr contractKey)
    let ?st1 = "emit (Console (FetchingSignatures contractKey)) st"
    obtain r st2 where ls: "listSignatures connection ?st1 contractKey = (r, st2)"
      by (cases "listSignatures connection ?st1 contractKey") auto
    let ?ev = "[GetSignaturesForAddress contractKey listOptions r]"
    have e2: "effects (trace st2) = effects (trace st) @ ?ev"
      and u2: "uniqueAddresses st2 = uniqueAddresses st"
      using listSignatures_facts[OF ls] by simp_all
    have o2: "observedSigners ?ev = []"
      by (simp add: observedSigners_def)
    show ?thesis
    proof (cases r)
      case (Inl e)
      with Cons.prems Inr ls have "st' = st2" by simp
      with e2 u2 o2 listing show ?thesis by (metis foldl_Nil)
    next
      case sigs: (Inr signatures)
      define st3 where "st3 = forSignatures_part000 connection st2 0 signatures"
      from forSignatures_part000_chunks[of Q, OF step nil app st3_def[symmetric]] obtain es where
        es: "effects (trace st3) = effects (trace st2) @ es"
          "uniqueAddresses st3 = foldl Set_add (uniqueAddresses st2) (observedSigners es)" "Q es"
        by blast
      have e3: "effects (trace st3) = effects (trace st) @ (?ev @ es)"
        using es(1) e2 by simp
      have u3: "uniqueAddresses st3 =
          foldl Set_add (uniqueAddresses st) (observedSigners (?ev @ es))"
        using es(2) u2 o2 by (simp only: observedSigners_append append_Nil)
      have q3: "Q (?ev @ es)"
        using app[OF listing es(3)] .
      from Cons.prems Inr ls sigs have "forContracts_part000 connection st3 rest = (out, st')"
        by (simp add: st3_def)
      from Cons.IH[OF this] obtain es' where
        es': "effects (trace st') = effects (trace st3) @ es'"
          "uniqueAddresses st' = foldl Set_add (uniqueAddresses st3) (observedSigners es')"
          "Q es'"
        by blast
      have "effects (trace st') = effects (trace st) @ ((?ev @ es) @ es')"
        using es'(1) e3 by simp
      moreover have "uniqueAddresses st' =
          foldl Set_add (uniqueAddresses st) (observedSigners ((?ev @ es) @ es'))"
        using es'(2) u3 by (simp only: observedSigners_append foldl_append)
      moreover have "Q ((?ev @ es) @ es')"
        using app[OF q3 es'(3)] .
      ultimately show ?thesis by blast
    qed
  qed
qed

section \<open>The returned value\<close>

lemma step_main_Return:
  "signatureStep_main connection st cbt si = (Return v, st', cbt') \<Longrightarrow>
     v = uniqueAddresses st' \<and> list_ex isFetchError (trace st')"
  by (auto simp: signatureStep_main_def fetchTransaction_def Let_def Array_from_def
      split: prod.splits sum.splits option.splits if_splits)

lemma forSignatures_main_Return:
  "forSignatures_main connection st cbt sigs = (Return v, st') \<Longrightarrow>
     v = uniqueAddresses st' \<and> list_ex isFetchError (trace st')"
proof (induction sigs arbitrary: st cbt)
  case Nil
  then show ?case by simp
next
  case (Cons si sigs)
  obtain c1 st1 cbt1 where s: "signatureStep_main connection st cbt si = (c1, st1, cbt1)"
    by (cases "signatureStep_main connection st cbt si") auto
  show ?case
  proof (cases c1)
    case Next
    with Cons.prems s have "forSignatures_main connection st1 cbt1 sigs = (Return v, st')"
      by simp
    then show ?thesis by (rule Cons.IH)
  next
    case (Return w)
    with Cons.prems s have "w = v" "st1 = st'" by simp_all
    with s Return show ?thesis using step_main_Return by blast
  qed
qed

lemma forContracts_main_Return:
  "forContracts_main connection st contracts = (Inr (Return v), st') \<Longrightarrow>
     v = uniqueAddresses st' \<and> list_ex isFetchError (trace st')"
proof (induction contracts arbitrary: st)
  case Nil
  then show ?case by simp
next
  case (Cons contract rest)
  from Cons.prems obtain contractKey where k: "PublicKey connection contract = Inr contractKey"
    by (cases "PublicKey connection contract") auto
  let ?st1 = "emit (Console (FetchingSignatures contractKey)) st"
  obtain r st2 where ls: "listSignatures connection ?st1 contractKey = (r, st2)"
    by (cases "listSignatures connection ?st1 contractKey") auto
  from Cons.prems k ls obtain signatures where sigs: "r = Inr signatures"
    by (cases r) auto
  obtain c st3 where fs: "forSignatures_main connection st2 (Number 0) signatures = (c, st3)"
    by (cases "forSignatures_main connection st2 (Number 0) signatures") auto
  show ?case
  proof (cases c)
    case Next
    with Cons.prems k ls sigs fs
    have "forContracts_main connection st3 rest = (Inr (Return v), st')"
      by simp
    then show ?thesis by (rule Cons.IH)
  next
    case (Return w)
    with Cons.prems k ls sigs fs have "w = v" "st3 = st'" by simp_all
    with fs Return show ?thesis using forSignatures_main_Return by blast
  qed
qed

lemma run_main_cases:
  assumes "getInteractingAddresses_main Connection l connectionUrl contracts = (out, st)"
  obtains (threw) e where "Connection connectionUrl ''confirmed'' = Inl e"
      and "out = Inl e" and "st = initial l"
    | (ran) connection c where "Connection connectionUrl ''confirmed'' = Inr connection"
      and "forContracts_main connection (initial l) contracts = (c, st)"
      and "out = Inr (uniqueAddresses st) \<or> isl out"
      and "isl out \<longleftrightarrow> isl c"
proof (cases "Connection connectionUrl ''confirmed''")
  case (Inl e)
  with assms have "out = Inl e" "st = initial l"
    by (simp_all add: getInteractingAddresses_main_def initial_def)
  with Inl show thesis by (rule threw)
next
  case con: (Inr connection)
  obtain c st' where f: "forContracts_main connection (initial l) contracts = (c, st')"
    by (cases "forContracts_main connection (initial l) contracts") auto
  with assms con have st: "st' = st"
    by (auto simp: getInteractingAddresses_main_def initial_def split: sum.splits control.splits)
  have res: "(out = Inr (uniqueAddresses st) \<or> isl out) \<and> (isl out \<longleftrightarrow> isl c)"
  proof (cases c)
    case (Inl e)
    with assms con f show ?thesis
      by (auto simp: getInteractingAddresses_main_def initial_def)
  next
    case (Inr ctl)
    show ?thesis
    proof (cases ctl)
      case Next
      with assms con f Inr show ?thesis
        by (auto simp: getInteractingAddresses_main_def initial_def Array_from_def)
    next
      case (Return v)
      with f Inr st have "v = uniqueAddresses st"
        using forContracts_main_Return by blast
      with assms con f Inr Return show ?thesis
        by (auto simp: getInteractingAddresses_main_def initial_def)
    qed
  qed
  from res have a: "out = Inr (uniqueAddresses st) \<or> isl out" and b: "isl out \<longleftrightarrow> isl c"
    by blast+
  from f st have f': "forContracts_main connection (initial l) contracts = (c, st)"
    by simp
  show thesis by (rule ran[OF con f' a b])
qed

lemma run_part000_cases:
  assumes "getInteractingAddresses_part000 Connection l connectionUrl contracts = (out, st)"
  obtains (threw) e where "Connection connectionUrl ''confirmed'' = Inl e"
      and "out = Inl e" and "st = initial l"
    | (ran) connection c where "Connection connectionUrl ''confirmed'' = Inr connection"
      and "forContracts_part000 connection (initial l) contracts = (c, st)"
      and "out = Inr (uniqueAddresses st) \<or> isl out"
      and "isl out \<longleftrightarrow> c \<noteq> None"
proof (cases "Connection connectionUrl ''confirmed''")
  case (Inl e)
  with assms have "out = Inl e" "st = initial l"
    by (simp_all add: getInteractingAddresses_part000_def initial_def)
  with Inl show thesis by (rule threw)
next
  case con: (Inr connection)
  obtain c st' where f: "forContracts_part000 connection (initial l) contracts = (c, st')"
    by (cases "forContracts_part000 connection (initial l) contracts") auto
  with assms con have st: "st' = st" and a: "out = Inr (uniqueAddresses st) \<or> isl out"
    and b: "isl out \<longleftrightarrow> c \<noteq> None"
    by (auto simp: getInteractingAddresses_part000_def initial_def Array_from_def
        split: option.splits)
  from f st have f': "forContracts_part000 connection (initial l) contracts = (c, st)"
    by simp
  show thesis by (rule ran[OF con f' a b])
qed

lemma run_returns_set_main:
  assumes "getInteractingAddresses_main Connection l connectionUrl contracts = (out, st)"
  shows "out = Inr (uniqueAddresses st) \<or> isl out"
  using assms by (cases rule: run_main_cases) simp_all

lemma run_returns_set_part000:
  assumes "getInteractingAddresses_part000 Connection l connectionUrl contracts = (out, st)"
  shows "out = Inr (uniqueAddresses st) \<or> isl out"
  using assms by (cases rule: run_part000_cases) simp_all

lemma run_main_firstOccurrences:
  assumes "getInteractingAddresses_main Connection l connectionUrl contracts = (out, st)"
  shows "uniqueAddresses st = firstOccurrences (observedSigners (trace st))"
  using assms
proof (cases rule: run_main_cases)
  case (threw e)
  then show ?thesis by (simp add: initial_def)
next
  case (ran connection c)
  from forContracts_main_chunks[of "\<lambda>es. True", OF _ _ _ _ ran(2)] obtain es where
    "effects (trace st) = effects (trace (initial l)) @ es"
    "uniqueAddresses st = foldl Set_add (uniqueAddresses (initial l)) (observedSigners es)"
    by blast
  then have "uniqueAddresses st = firstOccurrences (observedSigners (effects (trace st)))"
    by (simp add: initial_def foldl_Set_add_Nil)
  then show ?thesis by simp
qed

lemma run_part000_firstOccurrences:
  assumes "getInteractingAddresses_part000 Connection l connectionUrl contracts = (out, st)"
  shows "uniqueAddresses st = firstOccurrences (observedSigners (trace st))"
  using assms
proof (cases rule: run_part000_cases)
  case (threw e)
  then show ?thesis by (simp add: initial_def)
next
  case (ran connection c)
  from forContracts_part000_chunks[of "\<lambda>es. True", OF _ _ _ _ ran(2)] obtain es where
    "effects (trace st) = effects (trace (initial l)) @ es"
    "uniqueAddresses st = foldl Set_add (uniqueAddresses (initial l)) (observedSigners es)"
    by blast
  then have "uniqueAddresses st = firstOccurrences (observedSigners (effects (trace st)))"
    by (simp add: initial_def foldl_Set_add_Nil)
  then show ?thesis by simp
qed

lemma set_observedSigners:
  "set (observedSigners tr) =
     {pubkey a | a keys e. e \<in> set tr \<and> delivered e = Some keys \<and> a \<in> set keys \<and> signer a}"
  by (auto simp: observedSigners_def signersOf_def split: option.splits) force

text \<open>
  C1. Whatever the contracts and the ledger's answers, and however the run ends (a
  returned list, or an exception of the key constructor or of a listing), the set has
  no repeated entry, and its members are exactly the keys of the account entries
  flagged as signer in the transactions the run processed, that is, in the account
  lists its fetches delivered; a fetch that failed, found no transaction or delivered
  no account list contributes nothing. A returned list is the set.
\<close>

theorem unique_addresses_are_processed_signers:
  "(case getInteractingAddresses_main Connection l connectionUrl contracts of
      (out, st) \<Rightarrow>
        distinct (uniqueAddresses st) \<and>
        set (uniqueAddresses st) =
          {pubkey a | a keys e.
             e \<in> set (trace st) \<and> delivered e = Some keys \<and> a \<in> set keys \<and> signer a} \<and>
        (out = Inr (uniqueAddresses st) \<or> isl out))
   \<and> (case getInteractingAddresses_part000 Connection l connectionUrl contracts of
      (out, st) \<Rightarrow>
        distinct (uniqueAddresses st) \<and>
        set (uniqueAddresses st) =
          {pubkey a | a keys e.
             e \<in> set (trace st) \<and> delivered e = Some keys \<and> a \<in> set keys \<and> signer a} \<and>
        (out = Inr (uniqueAddresses st) \<or> isl out))"
proof (intro conjI)
  obtain out st where r: "getInteractingAddresses_main Connection l connectionUrl contracts = (out, st)"
    by (cases "getInteractingAddresses_main Connection l connectionUrl contracts") auto
  have "out = Inr (uniqueAddresses st) \<or> isl out"
    using r by (rule run_returns_set_main)
  with run_main_firstOccurrences[OF r] r
  show "case getInteractingAddresses_main Connection l connectionUrl contracts of
      (out, st) \<Rightarrow>
        distinct (uniqueAddresses st) \<and>
        set (uniqueAddresses st) =
          {pubkey a | a keys e.
             e \<in> set (trace st) \<and> delivered e = Some keys \<and> a \<in> set keys \<and> signer a} \<and>
        (out = Inr (uniqueAddresses st) \<or> isl out)"
    by (simp add: set_observedSigners)
next
  obtain out st where r: "getInteractingAddresses_part000 Connection l connectionUrl contracts = (out, st)"
    by (cases "getInteractingAddresses_part000 Connection l connectionUrl contracts") auto
  have "out = Inr (uniqueAddresses st) \<or> isl out"
    using r by (rule run_returns_set_part000)
  with run_part000_firstOccurrences[OF r] r
  show "case getInteractingAddresses_part000 Connection l connectionUrl contracts of
      (out, st) \<Rightarrow>
        distinct (uniqueAddresses st) \<and>
        set (uniqueAddresses st) =
          {pubkey a | a keys e.
             e \<in> set (trace st) \<and> delivered e = Some keys \<and> a \<in> set keys \<and> signer a} \<and>
        (out = Inr (uniqueAddresses st) \<or> isl out)"
    by (simp add: set_observedSigners)
qed

section \<open>Order of the result\<close>

text \<open>
  C9. The set of a run, and the list a run returns, is the sequence of the signer keys
  in the order the run met them (transaction by transaction, each account list in its
  order), reduced to the first occurrence of each key; inserting a sequence of keys
  into the empty set one by one gives exactly that. \<^verbatim>\<open>createCSV\<close> writes the entries
  in the order of the list it is given.
\<close>

theorem result_in_first_discovery_order:
  "(case getInteractingAddresses_main Connection l connectionUrl contracts of
      (out, st) \<Rightarrow>
        uniqueAddresses st = firstOccurrences (observedSigners (trace st)) \<and>
        (out = Inr (firstOccurrences (observedSigners (trace st))) \<or> isl out))
   \<and> (case getInteractingAddresses_part000 Connection l connectionUrl contracts of
      (out, st) \<Rightarrow>
        uniqueAddresses st = firstOccurrences (observedSigners (trace st)) \<and>
        (out = Inr (firstOccurrences (observedSigners (trace st))) \<or> isl out))
   \<and> foldl Set_add [] keys = firstOccurrences keys
   \<and> Set_add (firstOccurrences keys) k = firstOccurrences (keys @ [k])
   \<and> createCSV (x # xs) filePath =
       [WriteTextFile filePath (x @ concat (map ((@) '';'') xs) @ ''\<newline>''),
        Console (CsvFileCreated filePath)]"
proof (intro conjI)
  obtain out st where r: "getInteractingAddresses_main Connection l connectionUrl contracts = (out, st)"
    by (cases "getInteractingAddresses_main Connection l connectionUrl contracts") auto
  have "out = Inr (uniqueAddresses st) \<or> isl out"
    using r by (rule run_returns_set_main)
  with run_main_firstOccurrences[OF r] r
  show "case getInteractingAddresses_main Connection l connectionUrl contracts of
      (out, st) \<Rightarrow>
        uniqueAddresses st = firstOccurrences (observedSigners (trace st)) \<and>
        (out = Inr (firstOccurrences (observedSigners (trace st))) \<or> isl out)"
    by auto
next
  obtain out st where r: "getInteractingAddresses_part000 Connection l connectionUrl contracts = (out, st)"
    by (cases "getInteractingAddresses_part000 Connection l connectionUrl contracts") auto
  have "out = Inr (uniqueAddresses st) \<or> isl out"
    using r by (rule run_returns_set_part000)
  with run_part000_firstOccurrences[OF r] r
  show "case getInteractingAddresses_part000 Connection l connectionUrl contracts of
      (out, st) \<Rightarrow>
        uniqueAddresses st = firstOccurrences (observedSigners (trace st)) \<and>
        (out = Inr (firstOccurrences (observedSigners (trace st))) \<or> isl out)"
    by auto
next
  show "foldl Set_add [] keys = firstOccurrences keys"
    by (rule foldl_Set_add_Nil)
next
  have "Set_add (foldl Set_add [] keys) k = foldl Set_add [] (keys @ [k])"
    by simp
  then show "Set_add (firstOccurrences keys) k = firstOccurrences (keys @ [k])"
    by (simp only: foldl_Set_add_Nil)
next
  show "createCSV (x # xs) filePath =
       [WriteTextFile filePath (x @ concat (map ((@) '';'') xs) @ ''\<newline>''),
        Console (CsvFileCreated filePath)]"
    by (simp add: createCSV_def csvContent_def join_joinedBy joinedBy_Cons)
qed

section \<open>Growth of the set\<close>

lemma Set_add_cases: "Set_add s x = (if x \<in> set s then s else s @ [x])"
  by (simp add: Set_add_def Set_has_def)

lemma forEachAccount_main_set:
  "uniqueAddresses (forEachAccount_main st account) =
     (if signer account then Set_add (uniqueAddresses st) (pubkey account)
      else uniqueAddresses st)"
  by (simp add: forEachAccount_main_def Let_def)

lemma forEachAccount_part000_set:
  "uniqueAddresses (forEachAccount_part000 st account) =
     (if signer account then Set_add (uniqueAddresses st) (pubkey account)
      else uniqueAddresses st)"
  by (simp add: forEachAccount_part000_def Let_def)

lemma forEachAccount_main_rest:
  "ledger (forEachAccount_main st account) = ledger st \<and>
   effects (trace (forEachAccount_main st account)) = effects (trace st)"
  by (simp add: forEachAccount_main_def Let_def)

lemma forEachAccount_part000_rest:
  "ledger (forEachAccount_part000 st account) = ledger st \<and>
   effects (trace (forEachAccount_part000 st account)) = effects (trace st)"
  by (simp add: forEachAccount_part000_def Let_def)

lemma step_main_prefix:
  "prefix (uniqueAddresses st)
     (uniqueAddresses (fst (snd (signatureStep_main connection st cbt si))))"
proof -
  obtain c st' cbt' where s: "signatureStep_main connection st cbt si = (c, st', cbt')"
    by (cases "signatureStep_main connection st cbt si") auto
  obtain r l' where f: "getParsedTransaction connection (ledger st) (signature si) 0 = (r, l')"
    by (cases "getParsedTransaction connection (ledger st) (signature si) 0") auto
  from step_main(3)[OF s f] s show ?thesis
    by (simp add: prefix_foldl_Set_add)
qed

lemma step_part000_prefix:
  "prefix (uniqueAddresses st)
     (uniqueAddresses (fst (signatureStep_part000 connection st cbs si)))"
proof -
  obtain st' cbs' where s: "signatureStep_part000 connection st cbs si = (st', cbs')"
    by (cases "signatureStep_part000 connection st cbs si") auto
  obtain r l' where f: "getParsedTransaction connection (ledger st) (signature si) 0 = (r, l')"
    by (cases "getParsedTransaction connection (ledger st) (signature si) 0") auto
  from step_part000(3)[OF s f] s show ?thesis
    by (simp add: prefix_foldl_Set_add)
qed

lemma forContracts_main_prefix:
  "prefix (uniqueAddresses st) (uniqueAddresses (snd (forContracts_main connection st contracts)))"
proof -
  obtain out st' where f: "forContracts_main connection st contracts = (out, st')"
    by (cases "forContracts_main connection st contracts") auto
  from forContracts_main_chunks[of "\<lambda>es. True", OF _ _ _ _ f] obtain es where
    "uniqueAddresses st' = foldl Set_add (uniqueAddresses st) (observedSigners es)"
    by blast
  with f show ?thesis
    by (simp add: prefix_foldl_Set_add)
qed

lemma forContracts_part000_prefix:
  "prefix (uniqueAddresses st)
     (uniqueAddresses (snd (forContracts_part000 connection st contracts)))"
proof -
  obtain out st' where f: "forContracts_part000 connection st contracts = (out, st')"
    by (cases "forContracts_part000 connection st contracts") auto
  from forContracts_part000_chunks[of "\<lambda>es. True", OF _ _ _ _ f] obtain es where
    "uniqueAddresses st' = foldl Set_add (uniqueAddresses st) (observedSigners es)"
    by blast
  with f show ?thesis
    by (simp add: prefix_foldl_Set_add)
qed

text \<open>
  C8. The set only grows. An insertion leaves the set as it is when the key is
  there and appends the key otherwise, so a second insertion of a key changes nothing.
  The callback of either file changes the set by exactly one insertion of the key of a
  signer, whether or not it logs, and changes nothing else but the console lines. The
  set before an iteration is an initial segment of the set after it, and the set
  before the loop over the contracts is an initial segment of the set after it.
\<close>

theorem unique_addresses_grow_monotonically:
  "Set_add s x = (if x \<in> set s then s else s @ [x])
   \<and> Set_add (Set_add s x) x = Set_add s x
   \<and> uniqueAddresses (forEachAccount_main st account) =
       (if signer account then Set_add (uniqueAddresses st) (pubkey account)
        else uniqueAddresses st)
   \<and> uniqueAddresses (forEachAccount_part000 st account) =
       (if signer account then Set_add (uniqueAddresses st) (pubkey account)
        else uniqueAddresses st)
   \<and> ledger (forEachAccount_main st account) = ledger st
   \<and> effects (trace (forEachAccount_main st account)) = effects (trace st)
   \<and> ledger (forEachAccount_part000 st account) = ledger st
   \<and> effects (trace (forEachAccount_part000 st account)) = effects (trace st)
   \<and> prefix (uniqueAddresses st)
       (uniqueAddresses (fst (snd (signatureStep_main connection st cbt si))))
   \<and> prefix (uniqueAddresses st)
       (uniqueAddresses (fst (signatureStep_part000 connection st cbs si)))
   \<and> prefix (uniqueAddresses st)
       (uniqueAddresses (snd (forContracts_main connection st contracts)))
   \<and> prefix (uniqueAddresses st)
       (uniqueAddresses (snd (forContracts_part000 connection st contracts)))"
  using forEachAccount_main_rest[of st account] forEachAccount_part000_rest[of st account]
  by (simp add: Set_add_cases forEachAccount_main_set forEachAccount_part000_set
      step_main_prefix step_part000_prefix forContracts_main_prefix forContracts_part000_prefix)

section \<open>The example ledger, evaluated\<close>

lemma ex_constructor: "exampleConstructor rpcUrl ''confirmed'' = Inr exampleConnection"
  by (simp add: exampleConstructor_def rpcUrl_def)

lemma ex_key:
  "PublicKey exampleConnection c =
     (if c = ''bad'' then Inl (Error ''Invalid public key input'') else Inr c)"
  by (simp add: exampleConnection_def)

lemma ex_getParsedTransaction:
  "getParsedTransaction exampleConnection l sg v = (exampleTransaction sg, l + 1)"
  by (simp add: exampleConnection_def)

lemma ex_list:
  "listSignatures exampleConnection st k =
     (Inr (exampleSignatures k),
      st\<lparr>ledger := ledger st + 1,
         trace := trace st @
           [GetSignaturesForAddress k listOptions (Inr (exampleSignatures k))]\<rparr>)"
  by (simp add: listSignatures_def exampleConnection_def emit_def)

lemma ex_fetch:
  "fetchTransaction exampleConnection st si =
     (exampleTransaction (signature si),
      st\<lparr>ledger := ledger st + 1,
         trace := trace st @
           [GetParsedTransaction (signature si) 0 (exampleTransaction (signature si))]\<rparr>)"
  by (simp add: fetchTransaction_def exampleConnection_def emit_def)

text \<open>
  The equations of the loops over the contracts with the listing taken apart by
  projections, so that a concrete run evaluates from the inside.
\<close>

lemma forContracts_main_Cons:
  "forContracts_main connection st (contract # rest) =
     (case PublicKey connection contract of
        Inl e \<Rightarrow> (Inl e, st)
      | Inr contractKey \<Rightarrow>
          (case fst (listSignatures connection
                  (emit (Console (FetchingSignatures contractKey)) st) contractKey) of
             Inl e \<Rightarrow>
               (Inl e, snd (listSignatures connection
                  (emit (Console (FetchingSignatures contractKey)) st) contractKey))
           | Inr signatures \<Rightarrow>
               (case forSignatures_main connection
                   (snd (listSignatures connection
                      (emit (Console (FetchingSignatures contractKey)) st) contractKey))
                   (Number 0) signatures of
                  (Return v, st3) \<Rightarrow> (Inr (Return v), st3)
                | (Next, st3) \<Rightarrow> forContracts_main connection st3 rest)))"
  by (simp add: Let_def case_prod_unfold split: sum.splits)

lemma forContracts_part000_Cons:
  "forContracts_part000 connection st (contract # rest) =
     (case PublicKey connection contract of
        Inl e \<Rightarrow> (Some e, st)
      | Inr contractKey \<Rightarrow>
          (case fst (listSignatures connection
                  (emit (Console (FetchingSignatures contractKey)) st) contractKey) of
             Inl e \<Rightarrow>
               (Some e, snd (listSignatures connection
                  (emit (Console (FetchingSignatures contractKey)) st) contractKey))
           | Inr signatures \<Rightarrow>
               forContracts_part000 connection
                 (forSignatures_part000 connection
                    (snd (listSignatures connection
                       (emit (Console (FetchingSignatures contractKey)) st) contractKey))
                    0 signatures) rest))"
  by (simp add: Let_def case_prod_unfold split: sum.splits)

lemmas ex_simps = initial_def signatureStep_main_def signatureStep_part000_def
  ex_constructor ex_fetch ex_list ex_key ex_getParsedTransaction exampleTransaction_def exampleSignatures_def Let_def
  forEachAccount_main_def forEachAccount_part000_def Set_add_def Set_has_def Set_size_def
  Array_from_def emit_def getInteractingAddresses_main_def getInteractingAddresses_part000_def
  forContracts_main_Cons forContracts_part000_Cons

lemma ex_run_main:
  "getInteractingAddresses_main exampleConstructor 0 rpcUrl [''A'', ''B''] =
    (Inr [''P1'', ''P2''],
     \<lparr>uniqueAddresses = [''P1'', ''P2''], ledger = 4,
      trace =
        [Console (FetchingSignatures ''A''),
         GetSignaturesForAddress ''A'' listOptions (Inr (exampleSignatures ''A'')),
         Console (FetchingTransaction ''s1''),
         Console (NewBlockTime (Number 100)),
         GetParsedTransaction ''s1'' 0 (exampleTransaction ''s1''),
         Console (FoundNewUniqueAddress ''P1'' 1),
         Console (FoundNewUniqueAddress ''P2'' 2),
         Sleep 5000,
         Console (FetchingTransaction ''s2''),
         Console (NewBlockTime Null),
         GetParsedTransaction ''s2'' 0 (Inr None),
         Console TransactionNotFound,
         Console (FetchingTransaction ''s3''),
         Console (NewBlockTime (Number 90)),
         GetParsedTransaction ''s3'' 0 (Inl (Error ''429 Too Many Requests'')),
         Console (ErrorFetchingTransaction (Error ''429 Too Many Requests''))]\<rparr>)"
  by (simp add: ex_simps del: forContracts_main.simps(2) forContracts_part000.simps(2))

lemma ex_run_part000:
  "getInteractingAddresses_part000 exampleConstructor 0 rpcUrl [''A'', ''B''] =
    (Inr [''P1'', ''P2'', ''P3''],
     \<lparr>uniqueAddresses = [''P1'', ''P2'', ''P3''], ledger = 7,
      trace =
        [Console (FetchingSignatures ''A''),
         GetSignaturesForAddress ''A'' listOptions (Inr (exampleSignatures ''A'')),
         Console (NewBlockSlot 7),
         GetParsedTransaction ''s1'' 0 (exampleTransaction ''s1''),
         Console (FoundNewUniqueAddress ''P1'' 1),
         Console (FoundNewUniqueAddress ''P2'' 2),
         Sleep 100,
         GetParsedTransaction ''s2'' 0 (Inr None),
         Console TransactionNotFound,
         Console (NewBlockSlot 6),
         GetParsedTransaction ''s3'' 0 (Inl (Error ''429 Too Many Requests'')),
         Console (ErrorFetchingTransaction (Error ''429 Too Many Requests'')),
         Console SleepingFor10Seconds,
         Sleep 10000,
         Console Continuing,
         Console (NewBlockSlot 5),
         GetParsedTransaction ''s4'' 0 (exampleTransaction ''s4''),
         Console (FoundNewUniqueAddress ''P3'' 3),
         Sleep 100,
         Console (FetchingSignatures ''B''),
         GetSignaturesForAddress ''B'' listOptions (Inr (exampleSignatures ''B'')),
         Console (NewBlockSlot 4),
         GetParsedTransaction ''s5'' 0 (Inr (Some \<lparr>accountKeys = None\<rparr>)),
         Console MessageNotFound]\<rparr>)"
  by (simp add: ex_simps del: forContracts_main.simps(2) forContracts_part000.simps(2))

section \<open>Skipped transactions\<close>

lemma iterationEffects_skip:
  "r = Inr None \<or> (\<exists>t. r = Inr (Some t) \<and> accountKeys t = None) \<Longrightarrow>
     iterationEffects delay cooldown sg r = [GetParsedTransaction sg 0 r]"
  by (auto simp: iterationEffects_def)

text \<open>
  C4. When the fetch of a signature resolves to no transaction, or to a transaction
  without an account list, the iteration of either file ends normally, the set is what
  it was, the only effect of the iteration besides console lines is the fetch itself
  (no sleep of any length), and the loop goes on with the remaining signatures.
\<close>

theorem absent_transaction_is_skipped:
  assumes "getParsedTransaction connection (ledger st) (signature si) 0 = (r, l')"
    and "r = Inr None \<or> (\<exists>t. r = Inr (Some t) \<and> accountKeys t = None)"
  shows "(\<exists>st' cbt'.
            signatureStep_main connection st cbt si = (Next, st', cbt') \<and>
            uniqueAddresses st' = uniqueAddresses st \<and> ledger st' = l' \<and>
            effects (trace st') =
              effects (trace st) @ [GetParsedTransaction (signature si) 0 r] \<and>
            forSignatures_main connection st cbt (si # rest) =
              forSignatures_main connection st' cbt' rest)
       \<and> (\<exists>st' cbs'.
            signatureStep_part000 connection st cbs si = (st', cbs') \<and>
            uniqueAddresses st' = uniqueAddresses st \<and> ledger st' = l' \<and>
            effects (trace st') =
              effects (trace st) @ [GetParsedTransaction (signature si) 0 r] \<and>
            forSignatures_part000 connection st cbs (si # rest) =
              forSignatures_part000 connection st' cbs' rest)"
proof (intro conjI)
  have it: "\<And>delay cooldown.
      iterationEffects delay cooldown (signature si) r = [GetParsedTransaction (signature si) 0 r]"
    using assms(2) by (rule iterationEffects_skip)
  have obs: "observedSigners [GetParsedTransaction (signature si) 0 r] = []"
    using assms(2) by (auto simp: observedSigners_def)
  have nx: "(case r of Inl e \<Rightarrow> Return (uniqueAddresses st) | Inr t \<Rightarrow> Next) = Next"
    using assms(2) by auto
  obtain c st' cbt' where s: "signatureStep_main connection st cbt si = (c, st', cbt')"
    by (cases "signatureStep_main connection st cbt si") auto
  from step_main[OF s assms(1)] have
    "ledger st' = l'" "c = Next" "uniqueAddresses st' = uniqueAddresses st"
    "effects (trace st') = effects (trace st) @ [GetParsedTransaction (signature si) 0 r]"
    by (simp_all add: it obs nx)
  with s show "\<exists>st' cbt'.
            signatureStep_main connection st cbt si = (Next, st', cbt') \<and>
            uniqueAddresses st' = uniqueAddresses st \<and> ledger st' = l' \<and>
            effects (trace st') =
              effects (trace st) @ [GetParsedTransaction (signature si) 0 r] \<and>
            forSignatures_main connection st cbt (si # rest) =
              forSignatures_main connection st' cbt' rest"
    by simp
  obtain st'' cbs' where s': "signatureStep_part000 connection st cbs si = (st'', cbs')"
    by (cases "signatureStep_part000 connection st cbs si") auto
  from step_part000[OF s' assms(1)] have
    "ledger st'' = l'" "uniqueAddresses st'' = uniqueAddresses st"
    "effects (trace st'') = effects (trace st) @ [GetParsedTransaction (signature si) 0 r]"
    by (simp_all add: it obs)
  with s' show "\<exists>st' cbs'.
            signatureStep_part000 connection st cbs si = (st', cbs') \<and>
            uniqueAddresses st' = uniqueAddresses st \<and> ledger st' = l' \<and>
            effects (trace st') =
              effects (trace st) @ [GetParsedTransaction (signature si) 0 r] \<and>
            forSignatures_part000 connection st cbs (si # rest) =
              forSignatures_part000 connection st' cbs' rest"
    by simp
qed

text \<open>
  The theorem at the signature \<open>s5\<close> of the example ledger, whose transaction has no
  account list, in a state whose set holds one key.
\<close>

theorem absent_transaction_is_skipped_witness:
  "getParsedTransaction exampleConnection
      (ledger \<lparr>uniqueAddresses = [''P1''], ledger = 3, trace = []\<rparr>)
      (signature \<lparr>signature = ''s5'', slot = 4, blockTime = Number 80\<rparr>) 0 =
     (Inr (Some \<lparr>accountKeys = None\<rparr>), 4)
   \<and> (\<exists>st' cbt'.
        signatureStep_main exampleConnection
          \<lparr>uniqueAddresses = [''P1''], ledger = 3, trace = []\<rparr> (Number 0)
          \<lparr>signature = ''s5'', slot = 4, blockTime = Number 80\<rparr> = (Next, st', cbt') \<and>
        uniqueAddresses st' = [''P1''] \<and> ledger st' = 4 \<and>
        effects (trace st') =
          [GetParsedTransaction ''s5'' 0 (Inr (Some \<lparr>accountKeys = None\<rparr>))])
   \<and> (\<exists>st' cbs'.
        signatureStep_part000 exampleConnection
          \<lparr>uniqueAddresses = [''P1''], ledger = 3, trace = []\<rparr> 0
          \<lparr>signature = ''s5'', slot = 4, blockTime = Number 80\<rparr> = (st', cbs') \<and>
        uniqueAddresses st' = [''P1''] \<and> ledger st' = 4 \<and>
        effects (trace st') =
          [GetParsedTransaction ''s5'' 0 (Inr (Some \<lparr>accountKeys = None\<rparr>))])"
proof -
  let ?st = "\<lparr>uniqueAddresses = [''P1''], ledger = 3::nat, trace = []\<rparr>"
  let ?si = "\<lparr>signature = ''s5'', slot = 4, blockTime = Number 80\<rparr>"
  let ?r = "Inr (Some \<lparr>accountKeys = None\<rparr>) :: js_error + ParsedTransactionWithMeta option"
  have h1: "getParsedTransaction exampleConnection (ledger ?st) (signature ?si) 0 = (?r, 4)"
    by (simp add: ex_getParsedTransaction exampleTransaction_def)
  have h2: "?r = Inr None \<or> (\<exists>t. ?r = Inr (Some t) \<and> accountKeys t = None)"
    by simp
  from absent_transaction_is_skipped[OF h1 h2, of "Number 0" "[]" 0]
  obtain st1 cbt1 st2 cbs2 where
    a: "signatureStep_main exampleConnection ?st (Number 0) ?si = (Next, st1, cbt1)"
      "uniqueAddresses st1 = uniqueAddresses ?st" "ledger st1 = 4"
      "effects (trace st1) = effects (trace ?st) @ [GetParsedTransaction (signature ?si) 0 ?r]"
    and b: "signatureStep_part000 exampleConnection ?st 0 ?si = (st2, cbs2)"
      "uniqueAddresses st2 = uniqueAddresses ?st" "ledger st2 = 4"
      "effects (trace st2) = effects (trace ?st) @ [GetParsedTransaction (signature ?si) 0 ?r]"
    by blast
  have "\<exists>st' cbt'.
        signatureStep_main exampleConnection ?st (Number 0) ?si = (Next, st', cbt') \<and>
        uniqueAddresses st' = [''P1''] \<and> ledger st' = 4 \<and>
        effects (trace st') = [GetParsedTransaction ''s5'' 0 ?r]"
    using a by simp
  moreover have "\<exists>st' cbs'.
        signatureStep_part000 exampleConnection ?st 0 ?si = (st', cbs') \<and>
        uniqueAddresses st' = [''P1''] \<and> ledger st' = 4 \<and>
        effects (trace st') = [GetParsedTransaction ''s5'' 0 ?r]"
    using b by simp
  ultimately show ?thesis using h1 by blast
qed

section \<open>A failed fetch in part_000\<close>

lemma fetchCalls_append [simp]: "fetchCalls (xs @ ys) = fetchCalls xs @ fetchCalls ys"
  by (simp add: fetchCalls_def)

lemma fetchCalls_Nil [simp]: "fetchCalls [] = []"
  by (simp add: fetchCalls_def)

lemma fetchCalls_effects [simp]: "fetchCalls (effects tr) = fetchCalls tr"
  by (induction tr rule: rev_induct) (auto simp: fetchCalls_def elim: isConsole.elims)

lemma fetchCalls_iteration [simp]:
  "fetchCalls (iterationEffects delay cooldown sg r) = [sg]"
  by (auto simp: fetchCalls_def iterationEffects_def split: sum.splits option.splits)

lemma forSignatures_part000_fetchCalls:
  "fetchCalls (trace (forSignatures_part000 connection st cbs sigs)) =
     fetchCalls (trace st) @ map signature sigs"
proof (induction sigs arbitrary: st cbs)
  case Nil
  then show ?case by simp
next
  case (Cons si sigs)
  obtain st1 cbs1 where s: "signatureStep_part000 connection st cbs si = (st1, cbs1)"
    by (cases "signatureStep_part000 connection st cbs si") auto
  obtain r l' where f: "getParsedTransaction connection (ledger st) (signature si) 0 = (r, l')"
    by (cases "getParsedTransaction connection (ledger st) (signature si) 0") auto
  have "fetchCalls (effects (trace st1)) =
      fetchCalls (effects (trace st) @ iterationEffects 100 (Some 10000) (signature si) r)"
    using step_part000(2)[OF s f] by simp
  then have "fetchCalls (trace st1) = fetchCalls (trace st) @ [signature si]"
    by simp
  with Cons.IH[of st1 cbs1] s show ?case by simp
qed

text \<open>
  C3. In part_000, when the fetch of a signature \<open>s\<close> fails, the iteration leaves the
  set as it was, its effects are the failed fetch and a sleep of 10000 ms, and the loop
  goes on with the remaining signatures. When the fetch of the next signature \<open>s'\<close>
  then delivers an account list, the next effects are that fetch (not a second fetch of
  \<open>s\<close>) and the sleep of 100 ms, and the set is the old set with the signers of that
  list inserted. Over a whole loop every signature is fetched exactly once, in order.
\<close>

theorem failed_fetch_is_skipped_after_cooldown:
  assumes "getParsedTransaction connection (ledger st) (signature s) 0 = (Inl err, l1)"
  shows "\<exists>st1 cbs1.
      signatureStep_part000 connection st cbs s = (st1, cbs1) \<and>
      uniqueAddresses st1 = uniqueAddresses st \<and> ledger st1 = l1 \<and>
      effects (trace st1) =
        effects (trace st) @ [GetParsedTransaction (signature s) 0 (Inl err), Sleep 10000] \<and>
      forSignatures_part000 connection st cbs (s # rest) =
        forSignatures_part000 connection st1 cbs1 rest \<and>
      (\<forall>s' t keys l2.
         getParsedTransaction connection l1 (signature s') 0 = (Inr (Some t), l2) \<and>
         accountKeys t = Some keys \<longrightarrow>
         (\<exists>st2 cbs2.
            signatureStep_part000 connection st1 cbs1 s' = (st2, cbs2) \<and>
            uniqueAddresses st2 = foldl Set_add (uniqueAddresses st) (signersOf keys) \<and>
            set (uniqueAddresses st2) =
              set (uniqueAddresses st) \<union> {pubkey a | a. a \<in> set keys \<and> signer a} \<and>
            effects (trace st2) =
              effects (trace st) @
                [GetParsedTransaction (signature s) 0 (Inl err), Sleep 10000,
                 GetParsedTransaction (signature s') 0 (Inr (Some t)), Sleep 100])) \<and>
      fetchCalls (trace (forSignatures_part000 connection st cbs sigs)) =
        fetchCalls (trace st) @ map signature sigs"
proof -
  obtain st1 cbs1 where s: "signatureStep_part000 connection st cbs s = (st1, cbs1)"
    by (cases "signatureStep_part000 connection st cbs s") auto
  from step_part000[OF s assms] have
    l1: "ledger st1 = l1" and u1: "uniqueAddresses st1 = uniqueAddresses st"
    and e1: "effects (trace st1) =
        effects (trace st) @ [GetParsedTransaction (signature s) 0 (Inl err), Sleep 10000]"
    by (simp_all add: iterationEffects_def observedSigners_def)
  have loop: "forSignatures_part000 connection st cbs (s # rest) =
        forSignatures_part000 connection st1 cbs1 rest"
    using s by simp
  have nxt: "\<exists>st2 cbs2.
            signatureStep_part000 connection st1 cbs1 s' = (st2, cbs2) \<and>
            uniqueAddresses st2 = foldl Set_add (uniqueAddresses st) (signersOf keys) \<and>
            set (uniqueAddresses st2) =
              set (uniqueAddresses st) \<union> {pubkey a | a. a \<in> set keys \<and> signer a} \<and>
            effects (trace st2) =
              effects (trace st) @
                [GetParsedTransaction (signature s) 0 (Inl err), Sleep 10000,
                 GetParsedTransaction (signature s') 0 (Inr (Some t)), Sleep 100]"
    if f2: "getParsedTransaction connection l1 (signature s') 0 = (Inr (Some t), l2)"
      and k: "accountKeys t = Some keys" for s' t keys l2
  proof -
    obtain st2 cbs2 where s2: "signatureStep_part000 connection st1 cbs1 s' = (st2, cbs2)"
      by (cases "signatureStep_part000 connection st1 cbs1 s'") auto
    from f2 l1 have f2': "getParsedTransaction connection (ledger st1) (signature s') 0 =
        (Inr (Some t), l2)"
      by simp
    from step_part000[OF s2 f2'] k have
      u2: "uniqueAddresses st2 = foldl Set_add (uniqueAddresses st) (signersOf keys)"
      and e2: "effects (trace st2) =
        effects (trace st1) @ [GetParsedTransaction (signature s') 0 (Inr (Some t)), Sleep 100]"
      by (simp_all add: iterationEffects_def observedSigners_def u1)
    have "set (uniqueAddresses st2) =
        set (uniqueAddresses st) \<union> {pubkey a | a. a \<in> set keys \<and> signer a}"
      unfolding u2 by (auto simp: foldl_Set_add signersOf_def)
    with s2 u2 e2 e1 show ?thesis by simp
  qed
  from s l1 u1 e1 loop nxt forSignatures_part000_fetchCalls[of connection st cbs sigs]
  show ?thesis by blast
qed

text \<open>
  The theorem at the signatures \<open>s3\<close> (its fetch fails) and \<open>s4\<close> (signed by \<open>P3\<close>
  and \<open>P1\<close>) of the example ledger, in a state whose set holds \<open>P1\<close> and \<open>P2\<close>.
\<close>

theorem failed_fetch_is_skipped_after_cooldown_witness:
  "getParsedTransaction exampleConnection
      (ledger \<lparr>uniqueAddresses = [''P1'', ''P2''], ledger = 2, trace = []\<rparr>)
      (signature \<lparr>signature = ''s3'', slot = 6, blockTime = Number 90\<rparr>) 0 =
     (Inl (Error ''429 Too Many Requests''), 3)
   \<and> (\<exists>st1 cbs1 st2 cbs2.
        signatureStep_part000 exampleConnection
          \<lparr>uniqueAddresses = [''P1'', ''P2''], ledger = 2, trace = []\<rparr> 7
          \<lparr>signature = ''s3'', slot = 6, blockTime = Number 90\<rparr> = (st1, cbs1) \<and>
        uniqueAddresses st1 = [''P1'', ''P2''] \<and>
        signatureStep_part000 exampleConnection st1 cbs1
          \<lparr>signature = ''s4'', slot = 5, blockTime = Number 90\<rparr> = (st2, cbs2) \<and>
        uniqueAddresses st2 = [''P1'', ''P2'', ''P3''] \<and>
        effects (trace st2) =
          [GetParsedTransaction ''s3'' 0 (Inl (Error ''429 Too Many Requests'')), Sleep 10000,
           GetParsedTransaction ''s4'' 0 (exampleTransaction ''s4''), Sleep 100])"
proof -
  let ?st = "\<lparr>uniqueAddresses = [''P1'', ''P2''], ledger = 2::nat, trace = []\<rparr>"
  let ?s = "\<lparr>signature = ''s3'', slot = 6, blockTime = Number 90\<rparr>"
  let ?s' = "\<lparr>signature = ''s4'', slot = 5, blockTime = Number 90\<rparr>"
  let ?keys = "[\<lparr>pubkey = ''P3'', signer = True\<rparr>, \<lparr>pubkey = ''P1'', signer = True\<rparr>]"
  have h1: "getParsedTransaction exampleConnection (ledger ?st) (signature ?s) 0 =
      (Inl (Error ''429 Too Many Requests''), 3)"
    by (simp add: ex_getParsedTransaction exampleTransaction_def)
  have h2: "getParsedTransaction exampleConnection 3 (signature ?s') 0 =
      (Inr (Some \<lparr>accountKeys = Some ?keys\<rparr>), 4) \<and>
      accountKeys \<lparr>accountKeys = Some ?keys\<rparr> = Some ?keys"
    by (simp add: ex_getParsedTransaction exampleTransaction_def)
  from failed_fetch_is_skipped_after_cooldown[OF h1, of 7 "[]" "[]"]
  obtain st1 cbs1 where
    a: "signatureStep_part000 exampleConnection ?st 7 ?s = (st1, cbs1)"
      "uniqueAddresses st1 = uniqueAddresses ?st"
    and n: "\<forall>s' t keys l2.
         getParsedTransaction exampleConnection 3 (signature s') 0 = (Inr (Some t), l2) \<and>
         accountKeys t = Some keys \<longrightarrow>
         (\<exists>st2 cbs2.
            signatureStep_part000 exampleConnection st1 cbs1 s' = (st2, cbs2) \<and>
            uniqueAddresses st2 = foldl Set_add (uniqueAddresses ?st) (signersOf keys) \<and>
            set (uniqueAddresses st2) =
              set (uniqueAddresses ?st) \<union> {pubkey a | a. a \<in> set keys \<and> signer a} \<and>
            effects (trace st2) =
              effects (trace ?st) @
                [GetParsedTransaction (signature ?s) 0 (Inl (Error ''429 Too Many Requests'')),
                 Sleep 10000,
                 GetParsedTransaction (signature s') 0 (Inr (Some t)), Sleep 100])"
    by blast
  from n h2 obtain st2 cbs2 where
    b: "signatureStep_part000 exampleConnection st1 cbs1 ?s' = (st2, cbs2)"
      "uniqueAddresses st2 = foldl Set_add (uniqueAddresses ?st) (signersOf ?keys)"
      "effects (trace st2) =
              effects (trace ?st) @
                [GetParsedTransaction (signature ?s) 0 (Inl (Error ''429 Too Many Requests'')),
                 Sleep 10000,
                 GetParsedTransaction (signature ?s') 0
                   (Inr (Some \<lparr>accountKeys = Some ?keys\<rparr>)), Sleep 100]"
    by blast
  have "uniqueAddresses st1 = [''P1'', ''P2'']"
    using a(2) by simp
  moreover have "uniqueAddresses st2 = [''P1'', ''P2'', ''P3'']"
    using b(2) by (simp add: signersOf_def Set_add_def Set_has_def)
  moreover have "effects (trace st2) =
          [GetParsedTransaction ''s3'' 0 (Inl (Error ''429 Too Many Requests'')), Sleep 10000,
           GetParsedTransaction ''s4'' 0 (exampleTransaction ''s4''), Sleep 100]"
    using b(3) by (simp add: exampleTransaction_def)
  ultimately show ?thesis using h1 a(1) b(1) by blast
qed

section \<open>A failed fetch in main.ts\<close>

lemma forSignatures_main_append:
  "forSignatures_main connection st cbt pre = (Next, st1) \<Longrightarrow>
     \<exists>cbt1. forSignatures_main connection st cbt (pre @ post) =
       forSignatures_main connection st1 cbt1 post"
proof (induction pre arbitrary: st cbt)
  case Nil
  then show ?case by auto
next
  case (Cons si pre)
  obtain c st' cbt' where s: "signatureStep_main connection st cbt si = (c, st', cbt')"
    by (cases "signatureStep_main connection st cbt si") auto
  with Cons.prems have c: "c = Next"
    by (cases c) auto
  with Cons.prems s have "forSignatures_main connection st' cbt' pre = (Next, st1)"
    by simp
  from Cons.IH[OF this] s c show ?case by simp
qed

lemma forContracts_main_append:
  "forContracts_main connection st earlier = (Inr Next, st1) \<Longrightarrow>
     forContracts_main connection st (earlier @ later) = forContracts_main connection st1 later"
proof (induction earlier arbitrary: st)
  case Nil
  then show ?case by simp
next
  case (Cons contract earlier)
  from Cons.prems obtain contractKey where k: "PublicKey connection contract = Inr contractKey"
    by (cases "PublicKey connection contract") auto
  let ?st1 = "emit (Console (FetchingSignatures contractKey)) st"
  obtain r st2 where ls: "listSignatures connection ?st1 contractKey = (r, st2)"
    by (cases "listSignatures connection ?st1 contractKey") auto
  from Cons.prems k ls obtain signatures where sigs: "r = Inr signatures"
    by (cases r) auto
  obtain c st3 where fs: "forSignatures_main connection st2 (Number 0) signatures = (c, st3)"
    by (cases "forSignatures_main connection st2 (Number 0) signatures") auto
  from Cons.prems k ls sigs fs have c: "c = Next"
    by (cases c) auto
  with Cons.prems k ls sigs fs have "forContracts_main connection st3 earlier = (Inr Next, st1)"
    by simp
  from Cons.IH[OF this] k ls sigs fs c show ?case by simp
qed

text \<open>
  C2. In main.ts, let the constructor have given the connection, let the contracts
  before \<open>contract\<close> have run to their end, let the
  listing for \<open>contract\<close> give the signatures \<open>pre\<close>, \<open>s\<close>, \<open>post\<close>, let the iterations
  for \<open>pre\<close> have ended normally in the state \<open>st2\<close>, and let the fetch of \<open>s\<close> fail
  there. Then \<^verbatim>\<open>getInteractingAddresses\<close> returns the set of \<open>st2\<close>, whatever \<open>post\<close>
  and the later contracts are, and after the failed fetch the run has no further
  effect but a console line: no fetch, no listing, no sleep.
\<close>

theorem abort_returns_partial_set:
  assumes "Connection connectionUrl ''confirmed'' = Inr connection"
    and "forContracts_main connection (initial l) earlier = (Inr Next, st0)"
    and "PublicKey connection contract = Inr contractKey"
    and "listSignatures connection (emit (Console (FetchingSignatures contractKey)) st0)
           contractKey = (Inr (pre @ s # post), st1)"
    and "forSignatures_main connection st1 (Number 0) pre = (Next, st2)"
    and "getParsedTransaction connection (ledger st2) (signature s) 0 = (Inl err, l')"
  shows "\<exists>st3.
      getInteractingAddresses_main Connection l connectionUrl (earlier @ contract # later) =
        (Inr (uniqueAddresses st2), st3) \<and>
      uniqueAddresses st3 = uniqueAddresses st2 \<and> ledger st3 = l' \<and>
      effects (trace st3) =
        effects (trace st2) @ [GetParsedTransaction (signature s) 0 (Inl err)]"
proof -
  from forSignatures_main_append[OF assms(5), of "s # post"] obtain cbt2 where
    app: "forSignatures_main connection st1 (Number 0) (pre @ s # post) =
       forSignatures_main connection st2 cbt2 (s # post)"
    by blast
  obtain c st3 cbt3 where st: "signatureStep_main connection st2 cbt2 s = (c, st3, cbt3)"
    by (cases "signatureStep_main connection st2 cbt2 s") auto
  from step_main[OF st assms(6)] have
    l3: "ledger st3 = l'" and c: "c = Return (uniqueAddresses st2)"
    and u3: "uniqueAddresses st3 = uniqueAddresses st2"
    and e3: "effects (trace st3) =
        effects (trace st2) @ [GetParsedTransaction (signature s) 0 (Inl err)]"
    by (simp_all add: iterationEffects_def observedSigners_def)
  from app st c have
    "forSignatures_main connection st1 (Number 0) (pre @ s # post) =
       (Return (uniqueAddresses st2), st3)"
    by simp
  with assms(3,4) have
    "forContracts_main connection st0 (contract # later) =
       (Inr (Return (uniqueAddresses st2)), st3)"
    by simp
  with forContracts_main_append[OF assms(2), of "contract # later"] have
    "forContracts_main connection (initial l) (earlier @ contract # later) =
       (Inr (Return (uniqueAddresses st2)), st3)"
    by simp
  then have "getInteractingAddresses_main Connection l connectionUrl (earlier @ contract # later) =
        (Inr (uniqueAddresses st2), st3)"
    using assms(1) by (simp add: getInteractingAddresses_main_def initial_def)
  with u3 l3 e3 show ?thesis by blast
qed

text \<open>
  The theorem on the example ledger: the contracts \<open>A\<close> and \<open>B\<close>, the listing of
  \<open>A\<close> split at \<open>s3\<close>, whose fetch fails after \<open>s1\<close> and \<open>s2\<close> were processed.
\<close>

theorem abort_returns_partial_set_witness:
  "exampleConstructor rpcUrl ''confirmed'' = Inr exampleConnection
   \<and> getParsedTransaction exampleConnection 3 ''s3'' 0 =
       (Inl (Error ''429 Too Many Requests''), 4)
   \<and> (\<exists>st3.
        getInteractingAddresses_main exampleConstructor 0 rpcUrl ([] @ ''A'' # [''B'']) =
          (Inr [''P1'', ''P2''], st3) \<and>
        uniqueAddresses st3 = [''P1'', ''P2''] \<and> ledger st3 = 4)"
proof -
  let ?pre = "[\<lparr>signature = ''s1'', slot = 7, blockTime = Number 100\<rparr>,
               \<lparr>signature = ''s2'', slot = 7, blockTime = Null\<rparr>]"
  let ?s = "\<lparr>signature = ''s3'', slot = 6, blockTime = Number 90\<rparr>"
  let ?post = "[\<lparr>signature = ''s4'', slot = 5, blockTime = Number 90\<rparr>]"
  define st1 where "st1 =
    snd (listSignatures exampleConnection (emit (Console (FetchingSignatures ''A'')) (initial 0)) ''A'')"
  define st2 where "st2 = snd (forSignatures_main exampleConnection st1 (Number 0) ?pre)"
  have h0: "exampleConstructor rpcUrl ''confirmed'' = Inr exampleConnection"
    by (rule ex_constructor)
  have h1: "forContracts_main exampleConnection (initial 0) [] = (Inr Next, initial 0)"
    by simp
  have h2: "PublicKey exampleConnection ''A'' = Inr ''A''"
    by (simp add: ex_key)
  have h3: "listSignatures exampleConnection (emit (Console (FetchingSignatures ''A'')) (initial 0))
      ''A'' = (Inr (?pre @ ?s # ?post), st1)"
    by (simp add: st1_def ex_list exampleSignatures_def)
  have st1: "st1 = \<lparr>uniqueAddresses = [], ledger = 1,
      trace = [Console (FetchingSignatures ''A''),
               GetSignaturesForAddress ''A'' listOptions (Inr (exampleSignatures ''A''))]\<rparr>"
    by (simp add: st1_def ex_list initial_def emit_def)
  have ev: "forSignatures_main exampleConnection st1 (Number 0) ?pre =
      (Next, \<lparr>uniqueAddresses = [''P1'', ''P2''], ledger = 3,
        trace = [Console (FetchingSignatures ''A''),
                 GetSignaturesForAddress ''A'' listOptions (Inr (exampleSignatures ''A'')),
                 Console (FetchingTransaction ''s1''),
                 Console (NewBlockTime (Number 100)),
                 GetParsedTransaction ''s1'' 0 (exampleTransaction ''s1''),
                 Console (FoundNewUniqueAddress ''P1'' 1),
                 Console (FoundNewUniqueAddress ''P2'' 2),
                 Sleep 5000,
                 Console (FetchingTransaction ''s2''),
                 Console (NewBlockTime Null),
                 GetParsedTransaction ''s2'' 0 (Inr None),
                 Console TransactionNotFound]\<rparr>)"
    unfolding st1
    by (simp add: signatureStep_main_def ex_fetch exampleTransaction_def Let_def
        forEachAccount_main_def Set_add_def Set_has_def Set_size_def emit_def)
  have h4: "forSignatures_main exampleConnection st1 (Number 0) ?pre = (Next, st2)"
    unfolding st2_def ev by simp
  have u2: "uniqueAddresses st2 = [''P1'', ''P2'']" and l2: "ledger st2 = 3"
    unfolding st2_def ev by simp_all
  have h5: "getParsedTransaction exampleConnection (ledger st2) (signature ?s) 0 =
      (Inl (Error ''429 Too Many Requests''), 4)"
    by (simp add: l2 ex_getParsedTransaction exampleTransaction_def)
  from abort_returns_partial_set[where Connection = exampleConstructor and connectionUrl = rpcUrl
      and later = "[''B'']", OF h0 h1 h2 h3 h4 h5] u2 h0 h5 l2
  show ?thesis by auto
qed

section \<open>Delays\<close>

lemma withDelays_append [simp]: "withDelays d (xs @ ys) = withDelays d xs @ withDelays d ys"
  by (simp add: withDelays_def)

lemma withDelays_Nil [simp]: "withDelays d [] = []"
  by (simp add: withDelays_def)

lemma wellDelayed_Nil: "wellDelayed d []"
  by (simp add: wellDelayed_def)

lemma wellDelayed_append: "wellDelayed d a \<Longrightarrow> wellDelayed d b \<Longrightarrow> wellDelayed d (a @ b)"
  unfolding wellDelayed_def by (metis filter_append withDelays_append)

lemma wellDelayed_iteration_main: "wellDelayed delayAfter_main (iterationEffects 5000 None sg r)"
  by (auto simp: wellDelayed_def iterationEffects_def withDelays_def delayAfter_main_def
      split: sum.splits option.splits)

lemma wellDelayed_iteration_part000:
  "wellDelayed delayAfter_part000 (iterationEffects 100 (Some 10000) sg r)"
  by (auto simp: wellDelayed_def iterationEffects_def withDelays_def delayAfter_part000_def
      split: sum.splits option.splits)

lemma wellDelayed_listing:
  "wellDelayed delayAfter_main [GetSignaturesForAddress k opts r]"
  "wellDelayed delayAfter_part000 [GetSignaturesForAddress k opts r]"
  by (simp_all add: wellDelayed_def withDelays_def delayAfter_main_def delayAfter_part000_def)

lemma run_main_delays:
  assumes "getInteractingAddresses_main Connection l connectionUrl contracts = (out, st)"
  shows "effects (trace st) = withDelays delayAfter_main (calls (trace st))"
  using assms
proof (cases rule: run_main_cases)
  case (threw e)
  then show ?thesis by (simp add: initial_def calls_def)
next
  case (ran connection c)
  from forContracts_main_chunks[of "wellDelayed delayAfter_main",
      OF wellDelayed_iteration_main wellDelayed_listing(1) wellDelayed_Nil wellDelayed_append
        ran(2)]
  obtain es where "effects (trace st) = effects (trace (initial l)) @ es"
    "wellDelayed delayAfter_main es"
    by blast
  then have "wellDelayed delayAfter_main (effects (trace st))"
    by (simp add: initial_def)
  then show ?thesis
    unfolding wellDelayed_def calls_def .
qed

lemma run_part000_delays:
  assumes "getInteractingAddresses_part000 Connection l connectionUrl contracts = (out, st)"
  shows "effects (trace st) = withDelays delayAfter_part000 (calls (trace st))"
  using assms
proof (cases rule: run_part000_cases)
  case (threw e)
  then show ?thesis by (simp add: initial_def calls_def)
next
  case (ran connection c)
  from forContracts_part000_chunks[of "wellDelayed delayAfter_part000",
      OF wellDelayed_iteration_part000 wellDelayed_listing(2) wellDelayed_Nil
        wellDelayed_append ran(2)]
  obtain es where "effects (trace st) = effects (trace (initial l)) @ es"
    "wellDelayed delayAfter_part000 es"
    by blast
  then have "wellDelayed delayAfter_part000 (effects (trace st))"
    by (simp add: initial_def)
  then show ?thesis
    unfolding wellDelayed_def calls_def .
qed

lemma ex_run_B_main:
  "getInteractingAddresses_main exampleConstructor 0 rpcUrl [''B''] =
    (Inr [],
     \<lparr>uniqueAddresses = [], ledger = 2,
      trace =
        [Console (FetchingSignatures ''B''),
         GetSignaturesForAddress ''B'' listOptions (Inr (exampleSignatures ''B'')),
         Console (FetchingTransaction ''s5''),
         Console (NewBlockTime (Number 80)),
         GetParsedTransaction ''s5'' 0 (Inr (Some \<lparr>accountKeys = None\<rparr>)),
         Console MessageNotFound]\<rparr>)"
  by (simp add: ex_simps del: forContracts_main.simps(2) forContracts_part000.simps(2))

lemma ex_run_B_part000:
  "getInteractingAddresses_part000 exampleConstructor 0 rpcUrl [''B''] =
    (Inr [],
     \<lparr>uniqueAddresses = [], ledger = 2,
      trace =
        [Console (FetchingSignatures ''B''),
         GetSignaturesForAddress ''B'' listOptions (Inr (exampleSignatures ''B'')),
         Console (NewBlockSlot 4),
         GetParsedTransaction ''s5'' 0 (Inr (Some \<lparr>accountKeys = None\<rparr>)),
         Console MessageNotFound]\<rparr>)"
  by (simp add: ex_simps del: forContracts_main.simps(2) forContracts_part000.simps(2))

text \<open>
  C7, as the code has it. In a run of either file the effects are its calls, each
  followed by the sleeps \<open>delayAfter\<close> gives for it and by no other: in main.ts 5000 ms
  after a fetch that delivered an account list; in part_000 100 ms after such a fetch
  and 10000 ms after a fetch that failed; nothing after a fetch that found no
  transaction or no account list, and nothing after a listing call.
\<close>

theorem delay_follows_processed_transaction_only:
  "(case getInteractingAddresses_main Connection l connectionUrl contracts of
      (out, st) \<Rightarrow> effects (trace st) = withDelays delayAfter_main (calls (trace st)))
   \<and> (case getInteractingAddresses_part000 Connection l connectionUrl contracts of
      (out, st) \<Rightarrow> effects (trace st) = withDelays delayAfter_part000 (calls (trace st)))
   \<and> delayAfter_main (GetSignaturesForAddress k opts r) = []
   \<and> delayAfter_part000 (GetSignaturesForAddress k opts r) = []
   \<and> delayAfter_main (GetParsedTransaction sg v (Inr None)) = []
   \<and> delayAfter_part000 (GetParsedTransaction sg v (Inr None)) = []
   \<and> delayAfter_main (GetParsedTransaction sg v (Inr (Some \<lparr>accountKeys = None\<rparr>))) = []
   \<and> delayAfter_part000 (GetParsedTransaction sg v (Inr (Some \<lparr>accountKeys = None\<rparr>))) = []
   \<and> delayAfter_main (GetParsedTransaction sg v (Inr (Some \<lparr>accountKeys = Some keys\<rparr>))) = [5000]
   \<and> delayAfter_part000 (GetParsedTransaction sg v (Inr (Some \<lparr>accountKeys = Some keys\<rparr>))) = [100]
   \<and> delayAfter_main (GetParsedTransaction sg v (Inl e)) = []
   \<and> delayAfter_part000 (GetParsedTransaction sg v (Inl e)) = [10000]"
proof -
  obtain out st where r: "getInteractingAddresses_main Connection l connectionUrl contracts = (out, st)"
    by (cases "getInteractingAddresses_main Connection l connectionUrl contracts") auto
  obtain out' st' where r': "getInteractingAddresses_part000 Connection l connectionUrl contracts = (out', st')"
    by (cases "getInteractingAddresses_part000 Connection l connectionUrl contracts") auto
  from run_main_delays[OF r] run_part000_delays[OF r'] r r' show ?thesis
    by (simp add: delayAfter_main_def delayAfter_part000_def)
qed

text \<open>
  The run of either file over the contract \<open>B\<close> of the example ledger makes one listing
  call and processes one signature, whose transaction has no account list, and never
  sleeps.
\<close>

theorem skipped_signature_has_no_delay:
  "fst (getInteractingAddresses_main exampleConstructor 0 rpcUrl [''B'']) = Inr []
   \<and> listingCalls (trace (snd (getInteractingAddresses_main exampleConstructor 0 rpcUrl [''B'']))) =
       [(''B'', listOptions)]
   \<and> fetchCalls (trace (snd (getInteractingAddresses_main exampleConstructor 0 rpcUrl [''B'']))) =
       [''s5'']
   \<and> filter isSleep (trace (snd (getInteractingAddresses_main exampleConstructor 0 rpcUrl [''B'']))) = []
   \<and> fst (getInteractingAddresses_part000 exampleConstructor 0 rpcUrl [''B'']) = Inr []
   \<and> listingCalls (trace (snd (getInteractingAddresses_part000 exampleConstructor 0 rpcUrl [''B'']))) =
       [(''B'', listOptions)]
   \<and> fetchCalls (trace (snd (getInteractingAddresses_part000 exampleConstructor 0 rpcUrl [''B'']))) =
       [''s5'']
   \<and> filter isSleep (trace (snd (getInteractingAddresses_part000 exampleConstructor 0 rpcUrl [''B'']))) =
       []"
  by (simp add: ex_run_B_main ex_run_B_part000 listingCalls_def fetchCalls_def)

section \<open>Listing calls\<close>

lemma listingCalls_append [simp]:
  "listingCalls (xs @ ys) = listingCalls xs @ listingCalls ys"
  by (simp add: listingCalls_def)

lemma listingCalls_Nil [simp]: "listingCalls [] = []"
  by (simp add: listingCalls_def)

lemma listingCalls_effects [simp]: "listingCalls (effects tr) = listingCalls tr"
  by (induction tr rule: rev_induct) (auto simp: listingCalls_def elim: isConsole.elims)

lemma listingCalls_iteration: "listingCalls (iterationEffects delay cooldown sg r) = []"
  by (auto simp: listingCalls_def iterationEffects_def split: sum.splits option.splits)

lemma forSignatures_main_listing:
  assumes "forSignatures_main connection st cbt sigs = (c, st')"
  shows "listingCalls (trace st') = listingCalls (trace st)"
proof -
  from forSignatures_main_chunks[of "\<lambda>es. listingCalls es = []",
      OF listingCalls_iteration _ _ assms]
  obtain es where "effects (trace st') = effects (trace st) @ es" "listingCalls es = []"
    by auto
  then have "listingCalls (effects (trace st')) = listingCalls (effects (trace st))"
    by simp
  then show ?thesis by simp
qed

lemma forSignatures_part000_listing:
  "listingCalls (trace (forSignatures_part000 connection st cbs sigs)) = listingCalls (trace st)"
proof -
  from forSignatures_part000_chunks[of "\<lambda>es. listingCalls es = []",
      OF listingCalls_iteration _ _ refl]
  obtain es where
    "effects (trace (forSignatures_part000 connection st cbs sigs)) = effects (trace st) @ es"
    "listingCalls es = []"
    by (metis listingCalls_Nil listingCalls_append append_Nil)
  then have "listingCalls (effects (trace (forSignatures_part000 connection st cbs sigs))) =
      listingCalls (effects (trace st))"
    by simp
  then show ?thesis by simp
qed

lemma listSignatures_listing:
  assumes "listSignatures connection st contractKey = (r, st')"
  shows "listingCalls (trace st') = listingCalls (trace st) @ [(contractKey, listOptions)]"
  using assms by (auto simp: listSignatures_def listingCalls_def split: prod.splits)

lemma forContracts_main_listing:
  "forContracts_main connection st contracts = (out, st') \<Longrightarrow>
   \<exists>n\<le>length contracts.
     map (\<lambda>(k, opts). (Inr k, opts)) (listingCalls (trace st')) =
       map (\<lambda>(k, opts). (Inr k, opts)) (listingCalls (trace st)) @
       map (\<lambda>c. (PublicKey connection c, listOptions)) (take n contracts) \<and>
     (out = Inr Next \<longrightarrow> n = length contracts)"
proof (induction contracts arbitrary: st)
  case Nil
  then show ?case by auto
next
  case (Cons contract rest)
  show ?case
  proof (cases "PublicKey connection contract")
    case (Inl e)
    with Cons.prems have "st' = st" "out = Inl e" by simp_all
    then show ?thesis by (intro exI[of _ 0]) simp
  next
    case (Inr contractKey)
    let ?st1 = "emit (Console (FetchingSignatures contractKey)) st"
    obtain r st2 where ls: "listSignatures connection ?st1 contractKey = (r, st2)"
      by (cases "listSignatures connection ?st1 contractKey") auto
    have l2: "listingCalls (trace st2) = listingCalls (trace st) @ [(contractKey, listOptions)]"
      using listSignatures_listing[OF ls] by (simp add: listingCalls_def)
    have one: "map (\<lambda>(k, opts). (Inr k, opts)) (listingCalls (trace st2)) =
       map (\<lambda>(k, opts). (Inr k, opts)) (listingCalls (trace st)) @
       map (\<lambda>c. (PublicKey connection c, listOptions)) (take 1 (contract # rest))"
      using l2 Inr by simp
    show ?thesis
    proof (cases r)
      case (Inl e)
      with Cons.prems Inr ls have "st' = st2" "out = Inl e" by simp_all
      with one show ?thesis by (intro exI[of _ 1]) simp
    next
      case sigs: (Inr signatures)
      obtain c st3 where fs: "forSignatures_main connection st2 (Number 0) signatures = (c, st3)"
        by (cases "forSignatures_main connection st2 (Number 0) signatures") auto
      have l3: "listingCalls (trace st3) = listingCalls (trace st2)"
        using fs by (rule forSignatures_main_listing)
      show ?thesis
      proof (cases c)
        case (Return v)
        with Cons.prems Inr ls sigs fs have "st' = st3" "out = Inr (Return v)" by simp_all
        with one l3 show ?thesis by (intro exI[of _ 1]) simp
      next
        case Next
        with Cons.prems Inr ls sigs fs have "forContracts_main connection st3 rest = (out, st')"
          by simp
        from Cons.IH[OF this] obtain n where n: "n \<le> length rest"
          "map (\<lambda>(k, opts). (Inr k, opts)) (listingCalls (trace st')) =
             map (\<lambda>(k, opts). (Inr k, opts)) (listingCalls (trace st3)) @
             map (\<lambda>c. (PublicKey connection c, listOptions)) (take n rest)"
          "out = Inr Next \<longrightarrow> n = length rest"
          by blast
        have "map (\<lambda>(k, opts). (Inr k, opts)) (listingCalls (trace st')) =
             map (\<lambda>(k, opts). (Inr k, opts)) (listingCalls (trace st)) @
             map (\<lambda>c. (PublicKey connection c, listOptions)) (take (Suc n) (contract # rest))"
          using n(2) l3 l2 Inr by simp
        with n(1,3) show ?thesis by (intro exI[of _ "Suc n"]) simp
      qed
    qed
  qed
qed

lemma forContracts_part000_listing:
  "forContracts_part000 connection st contracts = (out, st') \<Longrightarrow>
   \<exists>n\<le>length contracts.
     map (\<lambda>(k, opts). (Inr k, opts)) (listingCalls (trace st')) =
       map (\<lambda>(k, opts). (Inr k, opts)) (listingCalls (trace st)) @
       map (\<lambda>c. (PublicKey connection c, listOptions)) (take n contracts) \<and>
     (out = None \<longrightarrow> n = length contracts)"
proof (induction contracts arbitrary: st)
  case Nil
  then show ?case by auto
next
  case (Cons contract rest)
  show ?case
  proof (cases "PublicKey connection contract")
    case (Inl e)
    with Cons.prems have "st' = st" "out = Some e" by simp_all
    then show ?thesis by (intro exI[of _ 0]) simp
  next
    case (Inr contractKey)
    let ?st1 = "emit (Console (FetchingSignatures contractKey)) st"
    obtain r st2 where ls: "listSignatures connection ?st1 contractKey = (r, st2)"
      by (cases "listSignatures connection ?st1 contractKey") auto
    have l2: "listingCalls (trace st2) = listingCalls (trace st) @ [(contractKey, listOptions)]"
      using listSignatures_listing[OF ls] by (simp add: listingCalls_def)
    have one: "map (\<lambda>(k, opts). (Inr k, opts)) (listingCalls (trace st2)) =
       map (\<lambda>(k, opts). (Inr k, opts)) (listingCalls (trace st)) @
       map (\<lambda>c. (PublicKey connection c, listOptions)) (take 1 (contract # rest))"
      using l2 Inr by simp
    show ?thesis
    proof (cases r)
      case (Inl e)
      with Cons.prems Inr ls have "st' = st2" "out = Some e" by simp_all
      with one show ?thesis by (intro exI[of _ 1]) simp
    next
      case sigs: (Inr signatures)
      define st3 where "st3 = forSignatures_part000 connection st2 0 signatures"
      have l3: "listingCalls (trace st3) = listingCalls (trace st2)"
        unfolding st3_def by (rule forSignatures_part000_listing)
      from Cons.prems Inr ls sigs have "forContracts_part000 connection st3 rest = (out, st')"
        by (simp add: st3_def)
      from Cons.IH[OF this] obtain n where n: "n \<le> length rest"
        "map (\<lambda>(k, opts). (Inr k, opts)) (listingCalls (trace st')) =
           map (\<lambda>(k, opts). (Inr k, opts)) (listingCalls (trace st3)) @
           map (\<lambda>c. (PublicKey connection c, listOptions)) (take n rest)"
        "out = None \<longrightarrow> n = length rest"
        by blast
      have "map (\<lambda>(k, opts). (Inr k, opts)) (listingCalls (trace st')) =
           map (\<lambda>(k, opts). (Inr k, opts)) (listingCalls (trace st)) @
           map (\<lambda>c. (PublicKey connection c, listOptions)) (take (Suc n) (contract # rest))"
        using n(2) l3 l2 Inr by simp
      with n(1,3) show ?thesis by (intro exI[of _ "Suc n"]) simp
    qed
  qed
qed

lemma run_main_listing:
  assumes "getInteractingAddresses_main Connection l connectionUrl contracts = (out, st)"
  shows "length (listingCalls (trace st)) \<le> length contracts \<and>
      (case Connection connectionUrl ''confirmed'' of
         Inl e \<Rightarrow> listingCalls (trace st) = []
       | Inr connection \<Rightarrow>
           map (\<lambda>(k, opts). (Inr k, opts)) (listingCalls (trace st)) =
             map (\<lambda>c. (PublicKey connection c, listOptions))
               (take (length (listingCalls (trace st))) contracts)) \<and>
      (length (listingCalls (trace st)) = length contracts \<or> isl out \<or>
       list_ex isFetchError (trace st))"
  using assms
proof (cases rule: run_main_cases)
  case (threw e)
  then show ?thesis by (simp add: initial_def)
next
  case (ran connection c)
  note f = ran(2)
  from forContracts_main_listing[OF f] obtain n where n: "n \<le> length contracts"
    "map (\<lambda>(k, opts). (Inr k, opts)) (listingCalls (trace st)) =
       map (\<lambda>c. (PublicKey connection c, listOptions)) (take n contracts)"
    "c = Inr Next \<longrightarrow> n = length contracts"
    by (auto simp: initial_def)
  from n(2) have "length (listingCalls (trace st)) = length (take n contracts)"
    by (metis length_map)
  with n(1) have len: "length (listingCalls (trace st)) = n"
    by simp
  have "n = length contracts \<or> isl out \<or> list_ex isFetchError (trace st)"
  proof (cases c)
    case (Inl e)
    with ran(4) show ?thesis by simp
  next
    case (Inr ctl)
    show ?thesis
    proof (cases ctl)
      case Next
      with Inr n(3) show ?thesis by simp
    next
      case (Return v)
      with f Inr have "list_ex isFetchError (trace st)"
        using forContracts_main_Return by blast
      then show ?thesis by simp
    qed
  qed
  with n(1,2) len ran(1) show ?thesis by simp
qed

lemma run_part000_listing:
  assumes "getInteractingAddresses_part000 Connection l connectionUrl contracts = (out, st)"
  shows "length (listingCalls (trace st)) \<le> length contracts \<and>
      (case Connection connectionUrl ''confirmed'' of
         Inl e \<Rightarrow> listingCalls (trace st) = []
       | Inr connection \<Rightarrow>
           map (\<lambda>(k, opts). (Inr k, opts)) (listingCalls (trace st)) =
             map (\<lambda>c. (PublicKey connection c, listOptions))
               (take (length (listingCalls (trace st))) contracts)) \<and>
      (length (listingCalls (trace st)) = length contracts \<or> isl out)"
  using assms
proof (cases rule: run_part000_cases)
  case (threw e)
  then show ?thesis by (simp add: initial_def)
next
  case (ran connection c)
  from forContracts_part000_listing[OF ran(2)] obtain n where n: "n \<le> length contracts"
    "map (\<lambda>(k, opts). (Inr k, opts)) (listingCalls (trace st)) =
       map (\<lambda>c. (PublicKey connection c, listOptions)) (take n contracts)"
    "c = None \<longrightarrow> n = length contracts"
    by (auto simp: initial_def)
  from n(2) have "length (listingCalls (trace st)) = length (take n contracts)"
    by (metis length_map)
  with n(1) have len: "length (listingCalls (trace st)) = n"
    by simp
  from n(3) ran(4) have "n = length contracts \<or> isl out"
    by auto
  with n(1,2) len ran(1) show ?thesis by simp
qed

text \<open>
  C6, as the code has it. In a run of either file the listing calls are, in order, one
  call for each contract of an initial segment of the input list, each with the key the
  constructor made of the contract, the limit 1000 and no cursor (\<open>before\<close> and
  \<open>until\<close> unset), so no call asks for a further page; there is none at all when
  the constructor of the connection throws. The segment is the whole list unless the
  run ended with an exception or, in main.ts, with the early return after a failed
  fetch.
\<close>

theorem one_page_per_reached_contract:
  "(case getInteractingAddresses_main Connection l connectionUrl contracts of
      (out, st) \<Rightarrow>
        length (listingCalls (trace st)) \<le> length contracts \<and>
        (case Connection connectionUrl ''confirmed'' of
           Inl e \<Rightarrow> listingCalls (trace st) = []
         | Inr connection \<Rightarrow>
             map (\<lambda>(k, opts). (Inr k, opts)) (listingCalls (trace st)) =
               map (\<lambda>c. (PublicKey connection c,
                           \<lparr>before = None, until = None, limit = Some 1000\<rparr>))
                 (take (length (listingCalls (trace st))) contracts)) \<and>
        (length (listingCalls (trace st)) = length contracts \<or> isl out \<or>
         list_ex isFetchError (trace st)))
   \<and> (case getInteractingAddresses_part000 Connection l connectionUrl contracts of
      (out, st) \<Rightarrow>
        length (listingCalls (trace st)) \<le> length contracts \<and>
        (case Connection connectionUrl ''confirmed'' of
           Inl e \<Rightarrow> listingCalls (trace st) = []
         | Inr connection \<Rightarrow>
             map (\<lambda>(k, opts). (Inr k, opts)) (listingCalls (trace st)) =
               map (\<lambda>c. (PublicKey connection c,
                           \<lparr>before = None, until = None, limit = Some 1000\<rparr>))
                 (take (length (listingCalls (trace st))) contracts)) \<and>
        (length (listingCalls (trace st)) = length contracts \<or> isl out))"
proof -
  obtain out st where
    r: "getInteractingAddresses_main Connection l connectionUrl contracts = (out, st)"
    by (cases "getInteractingAddresses_main Connection l connectionUrl contracts") auto
  obtain out' st' where
    r': "getInteractingAddresses_part000 Connection l connectionUrl contracts = (out', st')"
    by (cases "getInteractingAddresses_part000 Connection l connectionUrl contracts") auto
  from run_main_listing[OF r, unfolded listOptions_def]
    run_part000_listing[OF r', unfolded listOptions_def] r r'
  show ?thesis by simp
qed

text \<open>
  The run of main.ts over the contracts \<open>A\<close> and \<open>B\<close> of the example ledger returns
  a list, and its only listing call is the one for \<open>A\<close>: no page is requested for
  \<open>B\<close>.
\<close>

theorem contract_after_abort_is_never_listed:
  "fst (getInteractingAddresses_main exampleConstructor 0 rpcUrl [''A'', ''B'']) = Inr [''P1'', ''P2'']
   \<and> listingCalls (trace (snd (getInteractingAddresses_main exampleConstructor 0 rpcUrl [''A'', ''B'']))) =
       [(''A'', listOptions)]
   \<and> count_list
        (map fst
          (listingCalls
            (trace (snd (getInteractingAddresses_main exampleConstructor 0 rpcUrl [''A'', ''B''])))))
        ''B'' = 0"
  by (simp add: ex_run_main listingCalls_def)

end
